theory Spec2Isabelle
  imports Complex_Main "HOL-Library.Word" "HOL-Library.Sublist" "HOL-Library.Log_Nat"
begin

unbundle bit_operations_syntax

section \<open>The control link of tello.go\<close>

text \<open>
  A shallow embedding of \<^verbatim>\<open>tello.go\<close>: the \<^verbatim>\<open>Tello\<close> struct is a record, every
  method is a function from the state before the call to the state after it, and what a
  method does to the world outside the struct (datagrams handed to the control socket,
  log lines, address resolution, goroutines started) is appended to history fields that
  extend the record.

  Numbers. \<^verbatim>\<open>byte\<close>, \<^verbatim>\<open>uint16\<close> and \<^verbatim>\<open>uint64\<close> are words of that width, so
  \<^verbatim>\<open>ctrlSeq++\<close> wraps and \<^verbatim>\<open><<\<close> drops the bits shifted out. A finite \<^verbatim>\<open>float64\<close>
  is represented by the real number it denotes, and every float64 operation of the source
  rounds its exact result to the nearest float64, a tie going to the even significand
  (\<open>f64\<close> below). NaN and the infinities have no representation: no statement below is
  about them.
\<close>

subsection \<open>Declarations from outside tello.go\<close>

type_synonym byte = "8 word"

text \<open>
  Modelled from the spec: the message identifiers (\<^verbatim>\<open>msgSetStick\<close>, \<^verbatim>\<open>msgDoTakeoff\<close>,
  \<^verbatim>\<open>msgDoLand\<close>, \<^verbatim>\<open>msgFlightStatus\<close>, \<^verbatim>\<open>msgLightStrength\<close>, \<^verbatim>\<open>msgLogHeader\<close>,
  \<^verbatim>\<open>msgWifiStrength\<close>) are constants declared in another file of the package. The spec
  calls messageID an "enumerated command/telemetry identifier (e.g., stick-update,
  take-off, land, flight-status, wifi-strength, light-strength, log-header)"; any other
  16-bit identifier is \<open>msgOther\<close>.
\<close>

datatype messageID =
    msgSetStick | msgDoTakeoff | msgDoLand
  | msgFlightStatus | msgLightStrength | msgLogHeader | msgWifiStrength
  | msgOther "16 word"

text \<open>
  Modelled from the spec: the packet types \<^verbatim>\<open>ptSet\<close> and \<^verbatim>\<open>ptData2\<close> are constants
  declared in another file; the spec calls packetType an "enumerated frame kind (e.g.,
  "set", "data", "data2")".
\<close>

datatype packetType = ptSet | ptData | ptData2 | ptOther nat

text \<open>
  Modelled from the spec: the struct \<^verbatim>\<open>packet\<close> is declared in another file. These are
  the fields that tello.go reads or writes; \<^verbatim>\<open>var pkt packet\<close> starts with every field
  zero and \<open>payload\<close> nil (the empty list).
\<close>

record packet =
  header :: byte
  toDrone :: bool
  packetType :: packetType
  messageID :: messageID
  sequence :: "16 word"
  payload :: "byte list"
  size13 :: "16 word"

text \<open>
  Modelled from the spec: the struct \<^verbatim>\<open>FlightData\<close> is declared in another file; the
  spec's telemetry snapshot has "wifi signal strength (0-255), wifi interference (0-255),
  light/ambient sensor strength (0-255)", which are the three fields tello.go writes.
\<close>

record FlightData =
  WifiStrength :: byte
  WifiInterference :: byte
  LightStrength :: byte

text \<open>
  Modelled from the spec: the struct \<^verbatim>\<open>StickMessage\<close> is declared in another file;
  tello.go reads its fields Lx, Ly, Rx, Ry and Throttle, all \<^verbatim>\<open>float64\<close>.
\<close>

record StickMessage =
  Lx :: real
  Ly :: real
  Rx :: real
  Ry :: real
  Throttle :: real

text \<open>
  What tello.go takes from its surroundings, passed to every function that uses it:
  the header byte \<^verbatim>\<open>msgHdr\<close> and the decoder \<^verbatim>\<open>bufferToPacket\<close>, both declared in
  another file of the package, and two things that the language leaves to the
  implementation: whether \<^verbatim>\<open>x*y + z\<close> on float64 is fused into one operation with one
  rounding (as the compiler does where the processor has the instruction) or rounded
  after the product and again after the sum, and the value of a conversion
  \<^verbatim>\<open>uint64(f)\<close> of a float64 that no uint64 represents.
\<close>

record ext =
  msgHdr :: byte
  bufferToPacket :: "byte list \<Rightarrow> packet"
  fusedMultiplyAdd :: bool
  uint64_unrepresentable :: "real \<Rightarrow> 64 word"

subsection \<open>The process state\<close>

datatype error = errorsNew string | netError string

datatype logmsg =
    LogConnAck nat
  | LogUnexpectedResponse "byte list"
  | LogListenerStopped
  | LogNetworkReadError
  | LogUnexpectedMessage byte
  | LogLogHeader "16 word" packetType
  | LogParsedWifi byte byte
  | LogUnknownMessage messageID "16 word" packetType

text \<open>
  A buffer handed to \<^verbatim>\<open>ctrlConn.Write\<close>: the raw bytes of the connect request, or
  \<^verbatim>\<open>packetToBuffer(pkt)\<close> (declared in another file), recorded as the packet it encodes.
\<close>

datatype frame = Raw "byte list" | Encoded packet

datatype netcall = CallResolveUDPAddr string | CallDialUDP string string

datatype goroutine =
  controlResponseListener | keepAlive | stickListener | flightDataStreamer int

record UDPConn =
  laddr :: string
  raddr :: string

text \<open>
  The fields of \<^verbatim>\<open>type Tello struct\<close> (the two mutexes apart). A channel is the list
  of the values waiting in it, \<open>None\<close> when the channel is nil.
\<close>

record Tello =
  ctrlConn :: "UDPConn option"
  videoConn :: "UDPConn option"
  ctrlStopChan :: "bool list option"
  videoStopChan :: "bool list option"
  ctrlConnecting :: bool
  ctrlConnected :: bool
  ctrlSeq :: "16 word"
  ctrlRx :: real
  ctrlRy :: real
  ctrlLx :: real
  ctrlLy :: real
  ctrlThrottle :: real
  stickChan :: "StickMessage list option"
  fd :: FlightData
  fdStreaming :: bool

text \<open>
  The struct together with the history of its effects: \<open>sent\<close> lists the buffers
  handed to \<^verbatim>\<open>ctrlConn.Write\<close>, \<open>logged\<close> the lines given to the logger, \<open>netcalls\<close>
  the calls of \<^verbatim>\<open>net.ResolveUDPAddr\<close> and \<^verbatim>\<open>net.DialUDP\<close>, \<open>goroutines\<close> the
  goroutines started and not yet returned; \<open>buff\<close> is the listener's receive buffer.
\<close>

record proc = Tello +
  sent :: "frame list"
  logged :: "logmsg list"
  netcalls :: "netcall list"
  goroutines :: "goroutine list"
  buff :: "byte list"

text \<open>A zero-valued \<^verbatim>\<open>Tello\<close> in a process that has done nothing yet.\<close>

definition tello0 :: proc where
  "tello0 = \<lparr> ctrlConn = None, videoConn = None, ctrlStopChan = None, videoStopChan = None,
     ctrlConnecting = False, ctrlConnected = False, ctrlSeq = 0,
     ctrlRx = 0, ctrlRy = 0, ctrlLx = 0, ctrlLy = 0, ctrlThrottle = 0,
     stickChan = None,
     fd = \<lparr> WifiStrength = 0, WifiInterference = 0, LightStrength = 0 \<rparr>,
     fdStreaming = False,
     sent = [], logged = [], netcalls = [], goroutines = [], buff = [] \<rparr>"

subsection \<open>The stick encoder\<close>

text \<open>
  Float64 arithmetic. A float64 has 53 significant bits: in the binade
  \<open>2^e \<le> \<bar>r\<bar> < 2^(e+1)\<close> the float64 values are the multiples of \<open>2^(e-52)\<close>, and
  below \<open>2^-1022\<close> (the subnormal numbers) the multiples of \<open>2^-1074\<close>. An operation gives
  the float64 nearest to its exact result; of two that are equally near, the one with the
  even multiple.
\<close>

definition roundToEven :: "real \<Rightarrow> int" where
  "roundToEven r =
     (let f = \<lfloor>r\<rfloor>
      in if r - of_int f < 1 / 2 then f
         else if 1 / 2 < r - of_int f then f + 1
         else if even f then f else f + 1)"

text \<open>
  The exponent \<open>e\<close> of the binade of \<open>r \<noteq> 0\<close>: the bit length of \<open>\<lfloor>\<bar>r\<bar>\<rfloor>\<close> less one when
  \<open>1 \<le> \<bar>r\<bar>\<close>, and minus the bit length of \<open>\<lceil>1 / \<bar>r\<bar>\<rceil> - 1\<close> below 1.
\<close>

definition binade :: "real \<Rightarrow> int" where
  "binade r = (if 1 \<le> \<bar>r\<bar> then bitlen \<lfloor>\<bar>r\<bar>\<rfloor> - 1 else - bitlen (\<lceil>1 / \<bar>r\<bar>\<rceil> - 1))"

text \<open>
  The float64 nearest to a real. A result beyond the largest float64, an infinity in Go, is
  left as the real it would round to with an unbounded exponent: no uint64 represents
  either.
\<close>

definition f64 :: "real \<Rightarrow> real" where
  "f64 r =
     (if r = 0 then 0
      else let e = max (binade r - 52) (- 1074)
           in of_int (roundToEven (r / 2 powi e)) * 2 powi e)"

text \<open>The float64 value of \<^verbatim>\<open>a*b + c\<close>, fused or not.\<close>

definition f64_mul_add :: "ext \<Rightarrow> real \<Rightarrow> real \<Rightarrow> real \<Rightarrow> real" where
  "f64_mul_add x a b c =
     (if fusedMultiplyAdd x then f64 (a * b + c) else f64 (f64 (a * b) + c))"

text \<open>The integer part of a real: a conversion of a float to an integer drops the fraction.\<close>

definition trunc :: "real \<Rightarrow> int" where
  "trunc r = (if 0 \<le> r then \<lfloor>r\<rfloor> else \<lceil>r\<rceil>)"

definition f64_to_uint64 :: "ext \<Rightarrow> real \<Rightarrow> 64 word" where
  "f64_to_uint64 x r =
     (if 0 \<le> trunc r \<and> trunc r < 2 ^ 64 then word_of_int (trunc r)
      else uint64_unrepresentable x r)"

text \<open>\<^verbatim>\<open>func jsFloatToTello(fv float64) uint64 { return uint64(660*fv + 1024) }\<close>\<close>

definition jsFloatToTello :: "ext \<Rightarrow> real \<Rightarrow> 64 word" where
  "jsFloatToTello x fv = f64_to_uint64 x (f64_mul_add x 660 fv 1024)"

text \<open>
  The constant \<^verbatim>\<open>0.1\<close> in \<^verbatim>\<open>tello.ctrlThrottle > 0.1\<close> is the float64 nearest to one
  tenth, \<open>3602879701896397 / 2^55\<close> (it is \<open>f64 (1 / 10)\<close>, see \<open>f64_values\<close> below).
\<close>

definition f64_0_1 :: real where
  "f64_0_1 = 3602879701896397 / 36028797018963968"

text \<open>The local variable \<^verbatim>\<open>packedAxes\<close> of \<^verbatim>\<open>sendStickUpdate\<close>, as it stands after line 337.\<close>

definition packedAxes :: "ext \<Rightarrow> proc \<Rightarrow> 64 word" where
  "packedAxes x s =
     (let p0 = jsFloatToTello x (ctrlRx s);
          p1 = p0 OR push_bit 11 (jsFloatToTello x (ctrlRy s));
          p2 = p1 OR push_bit 22 (jsFloatToTello x (ctrlLy s));
          p3 = p2 OR push_bit 33 (jsFloatToTello x (ctrlLx s))
      in if ctrlThrottle s > f64_0_1 then p3 OR push_bit 44 0x7ff
         else p3 OR push_bit 44 (jsFloatToTello x (ctrlThrottle s)))"

text \<open>
  What \<^verbatim>\<open>time.Now()\<close> returned: hour, minute, second, and nanoseconds since the epoch
  (an \<^verbatim>\<open>int64\<close>, here an integer).
\<close>

record clock =
  Hour :: int
  Minute :: int
  Second :: int
  UnixNano :: int

text \<open>Integer division of Go: the quotient is truncated towards zero.\<close>

definition quo :: "int \<Rightarrow> int \<Rightarrow> int" where
  "quo a b = sgn a * sgn b * (\<bar>a\<bar> div \<bar>b\<bar>)"

definition stickPayload :: "ext \<Rightarrow> clock \<Rightarrow> proc \<Rightarrow> byte list" where
  "stickPayload x now s =
     (let p = packedAxes x s;
          ms = quo (UnixNano now) 1000000
      in [ucast p, ucast (drop_bit 8 p), ucast (drop_bit 16 p),
          ucast (drop_bit 24 p), ucast (drop_bit 32 p), ucast (drop_bit 40 p),
          word_of_int (Hour now), word_of_int (Minute now), word_of_int (Second now),
          word_of_int (ms AND 0xff), word_of_int (drop_bit 8 ms)])"

definition sendStickUpdate :: "ext \<Rightarrow> clock \<Rightarrow> proc \<Rightarrow> proc" where
  "sendStickUpdate x now s =
     (let pkt = \<lparr> header = msgHdr x, toDrone = True, packetType = ptData2,
                  messageID = msgSetStick, sequence = 0,
                  payload = stickPayload x now s, size13 = 0 \<rparr>
      in s\<lparr> sent := sent s @ [Encoded pkt] \<rparr>)"

subsection \<open>One-shot commands and the sticks\<close>

definition TakeOff :: "ext \<Rightarrow> proc \<Rightarrow> proc" where
  "TakeOff x s =
     (let s1 = s\<lparr> ctrlSeq := ctrlSeq s + 1 \<rparr>;
          pkt = \<lparr> header = msgHdr x, toDrone = True, packetType = ptSet,
                  messageID = msgDoTakeoff, sequence = ctrlSeq s1,
                  payload = [], size13 = 0 \<rparr>
      in s1\<lparr> sent := sent s1 @ [Encoded pkt] \<rparr>)"

definition Land :: "ext \<Rightarrow> proc \<Rightarrow> proc" where
  "Land x s =
     (let s1 = s\<lparr> ctrlSeq := ctrlSeq s + 1 \<rparr>;
          pkt = \<lparr> header = msgHdr x, toDrone = True, packetType = ptSet,
                  messageID = msgDoLand, sequence = ctrlSeq s1,
                  payload = [0], size13 = 0 \<rparr>
      in s1\<lparr> sent := sent s1 @ [Encoded pkt] \<rparr>)"

definition Hover :: "proc \<Rightarrow> proc" where
  "Hover s = s\<lparr> ctrlLx := 0, ctrlLy := 0, ctrlRx := 0, ctrlRy := 0, ctrlThrottle := 0 \<rparr>"

text \<open>One turn of the loop of \<^verbatim>\<open>stickListener\<close>, for the message \<open>sm\<close> taken from the channel.\<close>

definition stickListenerReceive :: "StickMessage \<Rightarrow> proc \<Rightarrow> proc" where
  "stickListenerReceive sm s =
     s\<lparr> ctrlLx := Lx sm, ctrlLy := Ly sm, ctrlRx := Rx sm, ctrlRy := Ry sm,
        ctrlThrottle := Throttle sm \<rparr>"

text \<open>One turn of the loop of \<^verbatim>\<open>keepAlive\<close>, at the time \<open>now\<close>.\<close>

definition keepAliveTurn :: "ext \<Rightarrow> clock \<Rightarrow> proc \<Rightarrow> proc" where
  "keepAliveTurn x now s =
     (if ctrlConnected s then sendStickUpdate x now s
      else s\<lparr> goroutines := remove1 keepAlive (goroutines s) \<rparr>)"

text \<open>
  The transmissions of one connection in the order in which they take the mutex:
  calls of \<^verbatim>\<open>TakeOff\<close> and \<^verbatim>\<open>Land\<close> and the stick updates of the keepalive loop.
\<close>

datatype transmission = DoTakeOff | DoLand | StickUpdate clock

fun transmit :: "ext \<Rightarrow> transmission \<Rightarrow> proc \<Rightarrow> proc" where
  "transmit x DoTakeOff s = TakeOff x s"
| "transmit x DoLand s = Land x s"
| "transmit x (StickUpdate now) s = sendStickUpdate x now s"

fun transmitAll :: "ext \<Rightarrow> transmission list \<Rightarrow> proc \<Rightarrow> proc" where
  "transmitAll x [] s = s"
| "transmitAll x (t # ts) s = transmitAll x ts (transmit x t s)"

subsection \<open>The control response listener\<close>

datatype panic = IndexOutOfRange

text \<open>What \<^verbatim>\<open>ctrlConn.Read(buff)\<close> returns: a datagram, or an error.\<close>

datatype rd = Datagram "byte list" | ReadError

text \<open>
  \<^verbatim>\<open>n, err := tello.ctrlConn.Read(buff)\<close>: the datagram overwrites the front of the
  buffer (cut to the buffer's length), the rest of the buffer keeps what it held.
\<close>

definition connRead :: "rd \<Rightarrow> byte list \<Rightarrow> nat \<times> bool \<times> byte list" where
  "connRead r b =
     (case r of
        Datagram d \<Rightarrow> (min (length d) (length b), False, take (length b) d @ drop (length d) b)
      | ReadError \<Rightarrow> (0, True, b))"

text \<open>
  \<^verbatim>\<open>bytes.ContainsAny(b, chars)\<close> for ASCII \<open>chars\<close>: some byte of \<open>b\<close> is one of the
  characters of \<open>chars\<close>.
\<close>

definition ContainsAny :: "byte list \<Rightarrow> string \<Rightarrow> bool" where
  "ContainsAny b chars = (\<exists>c \<in> set b. c \<in> of_char ` set chars)"

definition payloadAt :: "packet \<Rightarrow> nat \<Rightarrow> panic + byte" where
  "payloadAt pkt i =
     (if i < length (payload pkt) then Inr (payload pkt ! i) else Inl IndexOutOfRange)"

text \<open>The \<^verbatim>\<open>switch pkt.messageID\<close> of the listener (lines 246 to 265).\<close>

definition dispatch :: "packet \<Rightarrow> proc \<Rightarrow> panic + proc" where
  "dispatch pkt s =
     (case messageID pkt of
        msgFlightStatus \<Rightarrow> Inr s
      | msgLightStrength \<Rightarrow>
          (case payloadAt pkt 0 of
             Inl p \<Rightarrow> Inl p
           | Inr b0 \<Rightarrow> Inr (s\<lparr> fd := (fd s)\<lparr> LightStrength := b0 \<rparr> \<rparr>))
      | msgLogHeader \<Rightarrow>
          Inr (s\<lparr> logged := logged s @ [LogLogHeader (size13 pkt) (packetType pkt)] \<rparr>)
      | msgWifiStrength \<Rightarrow>
          (case payloadAt pkt 0 of
             Inl p \<Rightarrow> Inl p
           | Inr b0 \<Rightarrow>
               (case payloadAt pkt 1 of
                  Inl p \<Rightarrow> Inl p
                | Inr b1 \<Rightarrow>
                    Inr (s\<lparr> fd := (fd s)\<lparr> WifiStrength := b0, WifiInterference := b1 \<rparr>,
                            logged := logged s @ [LogParsedWifi b0 b1] \<rparr>)))
      | _ \<Rightarrow>
          Inr (s\<lparr> logged := logged s @
                   [LogUnknownMessage (messageID pkt) (size13 pkt) (packetType pkt)] \<rparr>))"

text \<open>One turn of the \<^verbatim>\<open>for\<close> loop of \<^verbatim>\<open>controlResponseListener\<close>, for one result of Read.\<close>

definition listenerTurn :: "ext \<Rightarrow> rd \<Rightarrow> proc \<Rightarrow> panic + proc" where
  "listenerTurn x r s =
     (case connRead r (buff s) of (n, err, b) \<Rightarrow>
        let s1 = s\<lparr> buff := b \<rparr> in
        if ctrlConnecting s1 \<and> n = 11 then
          (if ContainsAny b ''conn_ack:'' then
             Inr (s1\<lparr> logged := logged s1 @ [LogConnAck n],
                      ctrlConnecting := False, ctrlConnected := True \<rparr>)
           else Inr (s1\<lparr> logged := logged s1 @ [LogUnexpectedResponse b] \<rparr>))
        else
          (case ctrlStopChan s1 of
             Some (v # q) \<Rightarrow>
               Inr (s1\<lparr> ctrlStopChan := Some q,
                        logged := logged s1 @ [LogListenerStopped],
                        goroutines := remove1 controlResponseListener (goroutines s1) \<rparr>)
           | _ \<Rightarrow>
               if err then Inr (s1\<lparr> logged := logged s1 @ [LogNetworkReadError] \<rparr>)
               else (case b of
                       [] \<Rightarrow> Inl IndexOutOfRange
                     | b0 # _ \<Rightarrow>
                         if b0 \<noteq> msgHdr x then
                           Inr (s1\<lparr> logged := logged s1 @ [LogUnexpectedMessage b0] \<rparr>)
                         else dispatch (bufferToPacket x b) s1)))"

text \<open>The listener handles the results of Read in turn, for as long as it has not returned.\<close>

fun listenerRun :: "ext \<Rightarrow> rd list \<Rightarrow> proc \<Rightarrow> panic + proc" where
  "listenerRun x [] s = Inr s"
| "listenerRun x (r # rs) s =
     (if controlResponseListener \<in> set (goroutines s) then
        (case listenerTurn x r s of Inl p \<Rightarrow> Inl p | Inr s' \<Rightarrow> listenerRun x rs s')
      else Inr s)"

subsection \<open>Connecting\<close>

definition defaultTelloVideoPort :: "16 word" where
  "defaultTelloVideoPort = 6038"

definition sendConnectRequest :: "16 word \<Rightarrow> proc \<Rightarrow> proc" where
  "sendConnectRequest videoPort s =
     (let msgBuff = (map of_char ''conn_req:lh'')
                      [9 := ucast (videoPort AND 0xff), 10 := ucast (drop_bit 8 videoPort)]
      in s\<lparr> ctrlConnecting := True, sent := sent s @ [Raw msgBuff] \<rparr>)"

text \<open>\<^verbatim>\<open>strconv.Itoa\<close>: the decimal digits of an integer.\<close>

function digits :: "nat \<Rightarrow> string" where
  "digits n =
     (if n < 10 then [''0123456789'' ! n]
      else digits (n div 10) @ [''0123456789'' ! (n mod 10)])"
  by pat_completeness auto
termination
  by (relation "measure id") auto

declare digits.simps [simp del]

definition Itoa :: "int \<Rightarrow> string" where
  "Itoa i = (if i < 0 then CHR ''-'' # digits (nat (- i)) else digits (nat i))"

text \<open>The network, as far as \<^verbatim>\<open>ControlConnect\<close> calls it.\<close>

record net =
  ResolveUDPAddr :: "string \<Rightarrow> error + string"
  DialUDP :: "string \<Rightarrow> string \<Rightarrow> error + UDPConn"

text \<open>
  \<^verbatim>\<open>ControlConnect\<close> runs beside the listener it starts. What the listener reads, and
  when, is given from outside: the results of Read it handles before the connect request
  is sent, after it and before the first poll, and during each of the sleeps of the
  polling loop.
\<close>

record sched =
  beforeRequest :: "rd list"
  afterRequest :: "rd list"
  duringSleep :: "nat \<Rightarrow> rd list"

text \<open>The polling loop \<^verbatim>\<open>for t := 0; t < 10; t++\<close> (lines 99 to 107).\<close>

function waitForResponse :: "ext \<Rightarrow> sched \<Rightarrow> nat \<Rightarrow> proc \<Rightarrow> panic + proc" where
  "waitForResponse x sc t s =
     (if t < 10 then
        (if ctrlConnected s then Inr s
         else (case listenerRun x (duringSleep sc t) s of
                 Inl p \<Rightarrow> Inl p
               | Inr s' \<Rightarrow> waitForResponse x sc (t + 1) s'))
      else Inr s)"
  by pat_completeness auto
termination
  by (relation "measure (\<lambda>(x, sc, t, s). 10 - t)") auto

declare waitForResponse.simps [simp del]

text \<open>
  The end of \<^verbatim>\<open>ControlConnect\<close> (lines 108 to 122): give up with the timeout error, or
  start the keepalive and the stick listener and return the stick channel.
\<close>

definition finishConnect :: "proc \<Rightarrow> (StickMessage list option \<times> error option) \<times> proc" where
  "finishConnect s =
     (if \<not> ctrlConnected s then
        ((None, Some (errorsNew
           ''Timeout waiting for response to connection request from Tello'')), s)
      else
        let s1 = s\<lparr> goroutines := goroutines s @ [keepAlive] \<rparr>;
            s2 = s1\<lparr> stickChan := Some [],
                     goroutines := goroutines s1 @ [stickListener] \<rparr>
        in ((stickChan s2, None), s2))"

text \<open>
  \<^verbatim>\<open>ControlConnect\<close> from line 89 on, once the socket is open: start the listener, send
  the request, poll, and finish.
\<close>

definition handshake ::
  "ext \<Rightarrow> sched \<Rightarrow> proc \<Rightarrow> panic + ((StickMessage list option \<times> error option) \<times> proc)" where
  "handshake x sc s =
     (let s1 = s\<lparr> ctrlStopChan := Some [] \<rparr>;
          s2 = s1\<lparr> goroutines := goroutines s1 @ [controlResponseListener],
                   buff := replicate 4096 0 \<rparr>
      in case listenerRun x (beforeRequest sc) s2 of
           Inl p \<Rightarrow> Inl p
         | Inr s3 \<Rightarrow>
             (case listenerRun x (afterRequest sc) (sendConnectRequest defaultTelloVideoPort s3) of
                Inl p \<Rightarrow> Inl p
              | Inr s4 \<Rightarrow>
                  (case waitForResponse x sc 0 s4 of
                     Inl p \<Rightarrow> Inl p
                   | Inr s5 \<Rightarrow> Inr (finishConnect s5))))"

definition ControlConnect ::
  "ext \<Rightarrow> net \<Rightarrow> sched \<Rightarrow> string \<Rightarrow> int \<Rightarrow> int \<Rightarrow> proc
     \<Rightarrow> panic + ((StickMessage list option \<times> error option) \<times> proc)" where
  "ControlConnect x nt sc udpAddr droneUDPPort localUDPPort s =
     (if ctrlConnected s then Inr ((None, Some (errorsNew ''Tello already connected'')), s)
      else if ctrlConnecting s then
        Inr ((None, Some (errorsNew ''Tello connection attempt already in progress'')), s)
      else
        let a1 = udpAddr @ '':'' @ Itoa droneUDPPort;
            s1 = s\<lparr> netcalls := netcalls s @ [CallResolveUDPAddr a1] \<rparr>
        in case ResolveUDPAddr nt a1 of
             Inl e \<Rightarrow> Inr ((None, Some e), s1)
           | Inr droneAddr \<Rightarrow>
               let a2 = '':'' @ Itoa localUDPPort;
                   s2 = s1\<lparr> netcalls := netcalls s1 @ [CallResolveUDPAddr a2] \<rparr>
               in case ResolveUDPAddr nt a2 of
                    Inl e \<Rightarrow> Inr ((None, Some e), s2)
                  | Inr localAddr \<Rightarrow>
                      let s3 = s2\<lparr> netcalls := netcalls s2 @ [CallDialUDP localAddr droneAddr] \<rparr>
                      in case DialUDP nt localAddr droneAddr of
                           Inl e \<Rightarrow> Inr ((None, Some e), s3\<lparr> ctrlConn := None \<rparr>)
                         | Inr conn \<Rightarrow> handshake x sc (s3\<lparr> ctrlConn := Some conn \<rparr>))"

subsection \<open>Streaming flight data\<close>

text \<open>
  A call either returns its two results and the state, or ends the process:
  \<^verbatim>\<open>log.Fatal\<close> prints its line and calls \<^verbatim>\<open>os.Exit(1)\<close>.
\<close>

datatype exec =
    Returns "FlightData list option" "error option" proc
  | Exits string int

definition StreamFlightData :: "bool \<Rightarrow> int \<Rightarrow> proc \<Rightarrow> exec" where
  "StreamFlightData asAvailable periodMs s =
     (if fdStreaming s then
        Returns None (Some (errorsNew ''Already streaming data from this Tello'')) s
      else if asAvailable then
        Exits ''asAvailable FlightData stream not yet implemented'' 1
      else
        let s1 = s\<lparr> goroutines := goroutines s @ [flightDataStreamer periodMs] \<rparr>;
            s2 = s1\<lparr> fdStreaming := True \<rparr>
        in Returns (Some []) None s2)"

subsection \<open>Notions used in the statements\<close>

text \<open>The packets among the buffers handed to the socket.\<close>

fun framePackets :: "frame list \<Rightarrow> packet list" where
  "framePackets [] = []"
| "framePackets (Raw b # fs) = framePackets fs"
| "framePackets (Encoded pkt # fs) = pkt # framePackets fs"

text \<open>The packets that a run of transmissions adds to those sent before it.\<close>

definition sentBy :: "ext \<Rightarrow> transmission list \<Rightarrow> proc \<Rightarrow> packet list" where
  "sentBy x ts s = framePackets (drop (length (sent s)) (sent (transmitAll x ts s)))"

text \<open>The transmissions that take a sequence number from the counter.\<close>

fun isCommand :: "transmission \<Rightarrow> bool" where
  "isCommand (StickUpdate now) = False"
| "isCommand t = True"

text \<open>The marker text that the listener looks for, as bytes.\<close>

definition connAck :: "byte list" where
  "connAck = map of_char ''conn_ack:''"

text \<open>
  What every turn of the listener leaves alone: it never writes to the socket, the
  connection and the counters stay, a link that is connecting stays so or becomes
  connected, and the listener keeps running while the stop channel is empty.
\<close>

definition listenerKeeps :: "proc \<Rightarrow> proc \<Rightarrow> bool" where
  "listenerKeeps s s' \<longleftrightarrow>
     ctrlConn s' = ctrlConn s \<and> sent s' = sent s \<and> netcalls s' = netcalls s
     \<and> stickChan s' = stickChan s \<and> ctrlSeq s' = ctrlSeq s
     \<and> length (buff s') = length (buff s)
     \<and> (ctrlConnecting s \<longrightarrow> ctrlConnecting s' \<or> ctrlConnected s')
     \<and> (ctrlConnected s \<longrightarrow> ctrlConnected s')
     \<and> (ctrlStopChan s = Some [] \<longrightarrow> ctrlStopChan s' = Some [] \<and> goroutines s' = goroutines s)"

subsection \<open>Concrete inputs\<close>

text \<open>
  Surroundings to evaluate the functions in: the header byte \<open>0xcc\<close>, a decoder that
  reads every buffer as an empty flight-status packet, and a platform that rounds after
  the product and after the sum and whose unrepresentable conversions give 0.
\<close>

definition ext0 :: ext where
  "ext0 = \<lparr> msgHdr = 0xcc,
            bufferToPacket = (\<lambda>b. \<lparr> header = 0xcc, toDrone = False, packetType = ptData,
                                    messageID = msgFlightStatus, sequence = 0, payload = [], size13 = 0 \<rparr>),
            fusedMultiplyAdd = False,
            uint64_unrepresentable = (\<lambda>r. 0) \<rparr>"

text \<open>A network in which every address resolves to itself and every dial succeeds.\<close>

definition net0 :: net where
  "net0 = \<lparr> ResolveUDPAddr = (\<lambda>a. Inr a),
            DialUDP = (\<lambda>l r. Inr \<lparr> laddr = l, raddr = r \<rparr>) \<rparr>"

text \<open>A listener that reads nothing.\<close>

definition sched0 :: sched where
  "sched0 = \<lparr> beforeRequest = [], afterRequest = [], duringSleep = (\<lambda>t. []) \<rparr>"

text \<open>Midnight at the epoch.\<close>

definition clock0 :: clock where
  "clock0 = \<lparr> Hour = 0, Minute = 0, Second = 0, UnixNano = 0 \<rparr>"

text \<open>A wifi-strength packet as the decoder may return it.\<close>

definition wifiPacket :: packet where
  "wifiPacket = \<lparr> header = 0xcc, toDrone = False, packetType = ptData,
                   messageID = msgWifiStrength, sequence = 0, payload = [90, 7], size13 = 13 \<rparr>"

text \<open>
  A link in its handshake: the socket is open, the listener runs with a fresh buffer, the
  connect request has been sent.
\<close>

definition handshaking0 :: proc where
  "handshaking0 = tello0\<lparr> ctrlConn := Some \<lparr> laddr = '':8800'', raddr = ''192.168.10.1:8889'' \<rparr>,
       ctrlStopChan := Some [], ctrlConnecting := True,
       goroutines := [controlResponseListener], buff := replicate 4096 0,
       sent := [Raw (map of_char ''conn_req:'' @ [0x96, 0x17])] \<rparr>"

text \<open>The link after a connection attempt that nobody answered.\<close>

definition timedOut0 :: proc where
  "timedOut0 = handshaking0\<lparr> netcalls :=
       [CallResolveUDPAddr ''192.168.10.1:8889'', CallResolveUDPAddr '':8800'',
        CallDialUDP '':8800'' ''192.168.10.1:8889''] \<rparr>"

section \<open>Properties\<close>

subsection \<open>Hover\<close>

text \<open>
  Claim C9. \<^verbatim>\<open>Hover\<close> sets the four axes and the throttle of the shared stick state
  to 0, hands nothing to the socket, and leaves every other field as it was: the phase
  flags, the sequence counter and the connection are unchanged, and putting the five old
  stick values back gives the old state.
\<close>

theorem Hover_zeroes_the_sticks:
  "ctrlLx (Hover s) = 0 \<and> ctrlLy (Hover s) = 0 \<and> ctrlRx (Hover s) = 0 \<and> ctrlRy (Hover s) = 0
   \<and> ctrlThrottle (Hover s) = 0
   \<and> sent (Hover s) = sent s
   \<and> ctrlConnecting (Hover s) = ctrlConnecting s \<and> ctrlConnected (Hover s) = ctrlConnected s
   \<and> ctrlSeq (Hover s) = ctrlSeq s \<and> ctrlConn (Hover s) = ctrlConn s
   \<and> (Hover s)\<lparr> ctrlLx := ctrlLx s, ctrlLy := ctrlLy s, ctrlRx := ctrlRx s, ctrlRy := ctrlRy s,
                ctrlThrottle := ctrlThrottle s \<rparr> = s"
  by (simp add: Hover_def)

subsection \<open>Streaming flight data\<close>

text \<open>
  Claim C10. When no stream is active, \<^verbatim>\<open>StreamFlightData\<close> with \<open>asAvailable\<close> true
  does not return to its caller, whatever \<open>periodMs\<close> is: it ends the process through
  \<^verbatim>\<open>log.Fatal\<close>.
\<close>

theorem StreamFlightData_asAvailable_exits:
  "\<not> fdStreaming s \<Longrightarrow>
     StreamFlightData True periodMs s = Exits ''asAvailable FlightData stream not yet implemented'' 1
     \<and> (\<forall>ch e s'. StreamFlightData True periodMs s \<noteq> Returns ch e s')"
  by (simp add: StreamFlightData_def)

theorem StreamFlightData_asAvailable_exits_witness:
  "\<not> fdStreaming tello0 \<and>
   StreamFlightData True 100 tello0 = Exits ''asAvailable FlightData stream not yet implemented'' 1
     \<and> (\<forall>ch e s'. StreamFlightData True 100 tello0 \<noteq> Returns ch e s')"
proof -
  have h: "\<not> fdStreaming tello0" by (simp add: tello0_def)
  show ?thesis using h StreamFlightData_asAvailable_exits [OF h, of 100] by simp
qed

subsection \<open>The guard of ControlConnect\<close>

text \<open>
  Claim C3. \<^verbatim>\<open>ControlConnect\<close> on a connected link returns the error "Tello already
  connected", on a link that is handshaking the error "Tello connection attempt already in
  progress"; in both cases the stick channel returned is nil and the whole state is
  unchanged, so that no address was resolved, no socket opened and nothing sent.
\<close>

theorem ControlConnect_refuses_second_connect:
  "(ctrlConnected s \<longrightarrow>
      ControlConnect x nt sc udpAddr droneUDPPort localUDPPort s =
        Inr ((None, Some (errorsNew ''Tello already connected'')), s))
   \<and> (ctrlConnecting s \<and> \<not> ctrlConnected s \<longrightarrow>
      ControlConnect x nt sc udpAddr droneUDPPort localUDPPort s =
        Inr ((None, Some (errorsNew ''Tello connection attempt already in progress'')), s))"
  by (simp add: ControlConnect_def)

theorem ControlConnect_refuses_second_connect_witness:
  "ctrlConnected (tello0\<lparr> ctrlConnected := True \<rparr>)
   \<and> ControlConnect ext0 net0 sched0 ''192.168.10.1'' 8889 8800 (tello0\<lparr> ctrlConnected := True \<rparr>) =
        Inr ((None, Some (errorsNew ''Tello already connected'')), tello0\<lparr> ctrlConnected := True \<rparr>)
   \<and> ctrlConnecting (tello0\<lparr> ctrlConnecting := True \<rparr>)
   \<and> \<not> ctrlConnected (tello0\<lparr> ctrlConnecting := True \<rparr>)
   \<and> ControlConnect ext0 net0 sched0 ''192.168.10.1'' 8889 8800 (tello0\<lparr> ctrlConnecting := True \<rparr>) =
        Inr ((None, Some (errorsNew ''Tello connection attempt already in progress'')),
             tello0\<lparr> ctrlConnecting := True \<rparr>)"
  using ControlConnect_refuses_second_connect
          [of "tello0\<lparr> ctrlConnected := True \<rparr>" ext0 net0 sched0 "''192.168.10.1''" 8889 8800]
        ControlConnect_refuses_second_connect
          [of "tello0\<lparr> ctrlConnecting := True \<rparr>" ext0 net0 sched0 "''192.168.10.1''" 8889 8800]
  by (simp add: tello0_def)

subsection \<open>The dispatch of telemetry\<close>

text \<open>
  Claim C8. The dispatch of a decoded packet changes only the telemetry fields of its
  message identifier. A wifi-strength packet with payload bytes 0 and 1 sets
  \<open>WifiStrength\<close> and \<open>WifiInterference\<close> from them and leaves \<open>LightStrength\<close>; a
  light-strength packet with a payload byte 0 sets \<open>LightStrength\<close> from it and leaves the
  wifi fields; every other identifier (flight status, log header, unrecognised) leaves the
  snapshot as it was. Nothing else of the link state changes: putting the old snapshot
  (and the old log) back gives the old state.
\<close>

theorem dispatch_touches_its_own_fields:
  "(messageID pkt = msgWifiStrength \<and> 2 \<le> length (payload pkt) \<longrightarrow>
      (\<exists>s'. dispatch pkt s = Inr s'
         \<and> WifiStrength (fd s') = payload pkt ! 0 \<and> WifiInterference (fd s') = payload pkt ! 1
         \<and> LightStrength (fd s') = LightStrength (fd s)
         \<and> s'\<lparr> fd := fd s, logged := logged s \<rparr> = s))
   \<and> (messageID pkt = msgLightStrength \<and> 1 \<le> length (payload pkt) \<longrightarrow>
      (\<exists>s'. dispatch pkt s = Inr s'
         \<and> LightStrength (fd s') = payload pkt ! 0
         \<and> WifiStrength (fd s') = WifiStrength (fd s)
         \<and> WifiInterference (fd s') = WifiInterference (fd s)
         \<and> s'\<lparr> fd := fd s \<rparr> = s))
   \<and> (messageID pkt \<noteq> msgWifiStrength \<and> messageID pkt \<noteq> msgLightStrength \<longrightarrow>
      (\<exists>s'. dispatch pkt s = Inr s' \<and> fd s' = fd s \<and> s'\<lparr> logged := logged s \<rparr> = s))"
  by (cases "messageID pkt") (simp_all add: dispatch_def payloadAt_def)

text \<open>
  The three cases at a wifi-strength packet with payload 90, 7, at a light-strength packet
  and at an unrecognised identifier.
\<close>

theorem dispatch_touches_its_own_fields_witness:
  "messageID wifiPacket = msgWifiStrength \<and> 2 \<le> length (payload wifiPacket)
   \<and> (\<exists>s'. dispatch wifiPacket tello0 = Inr s'
         \<and> WifiStrength (fd s') = 90 \<and> WifiInterference (fd s') = 7
         \<and> LightStrength (fd s') = LightStrength (fd tello0)
         \<and> s'\<lparr> fd := fd tello0, logged := logged tello0 \<rparr> = tello0)
   \<and> messageID (wifiPacket\<lparr> messageID := msgLightStrength \<rparr>) = msgLightStrength
   \<and> 1 \<le> length (payload (wifiPacket\<lparr> messageID := msgLightStrength \<rparr>))
   \<and> (\<exists>s'. dispatch (wifiPacket\<lparr> messageID := msgLightStrength \<rparr>) tello0 = Inr s'
         \<and> LightStrength (fd s') = 90
         \<and> WifiStrength (fd s') = WifiStrength (fd tello0)
         \<and> WifiInterference (fd s') = WifiInterference (fd tello0)
         \<and> s'\<lparr> fd := fd tello0 \<rparr> = tello0)
   \<and> messageID (wifiPacket\<lparr> messageID := msgOther 7 \<rparr>) \<noteq> msgWifiStrength
   \<and> messageID (wifiPacket\<lparr> messageID := msgOther 7 \<rparr>) \<noteq> msgLightStrength
   \<and> (\<exists>s'. dispatch (wifiPacket\<lparr> messageID := msgOther 7 \<rparr>) tello0 = Inr s'
         \<and> fd s' = fd tello0 \<and> s'\<lparr> logged := logged tello0 \<rparr> = tello0)"
  using dispatch_touches_its_own_fields [of wifiPacket tello0]
    dispatch_touches_its_own_fields [of "wifiPacket\<lparr> messageID := msgLightStrength \<rparr>" tello0]
    dispatch_touches_its_own_fields [of "wifiPacket\<lparr> messageID := msgOther 7 \<rparr>" tello0]
  by (simp add: wifiPacket_def)

text \<open>
  When the payload is shorter than the bytes a case reads, the index expression
  \<^verbatim>\<open>pkt.payload[i]\<close> panics.
\<close>

lemma dispatch_short_payload_panics:
  "(messageID pkt = msgWifiStrength \<and> length (payload pkt) < 2 \<longrightarrow> dispatch pkt s = Inl IndexOutOfRange)
   \<and> (messageID pkt = msgLightStrength \<and> payload pkt = [] \<longrightarrow> dispatch pkt s = Inl IndexOutOfRange)"
  by (simp add: dispatch_def payloadAt_def)

subsection \<open>Sequence numbers\<close>

lemma framePackets_append: "framePackets (fs @ gs) = framePackets fs @ framePackets gs"
  by (induction fs rule: framePackets.induct) simp_all

lemma transmit_sent:
  "\<exists>pkt. sent (transmit x t s) = sent s @ [Encoded pkt]
     \<and> messageID pkt = (case t of DoTakeOff \<Rightarrow> msgDoTakeoff | DoLand \<Rightarrow> msgDoLand | StickUpdate now \<Rightarrow> msgSetStick)
     \<and> sequence pkt = (if isCommand t then ctrlSeq s + 1 else 0)
     \<and> ctrlSeq (transmit x t s) = (if isCommand t then ctrlSeq s + 1 else ctrlSeq s)"
  by (cases t) (simp_all add: TakeOff_def Land_def sendStickUpdate_def Let_def)

lemma transmitAll_sent_prefix:
  "\<exists>fs. sent (transmitAll x ts s) = sent s @ fs \<and> length fs = length ts"
proof (induction ts arbitrary: s)
  case Nil
  show ?case by simp
next
  case (Cons t ts)
  obtain pkt where p: "sent (transmit x t s) = sent s @ [Encoded pkt]"
    using transmit_sent by blast
  obtain fs where f: "sent (transmitAll x ts (transmit x t s)) = sent (transmit x t s) @ fs" "length fs = length ts"
    using Cons.IH by blast
  show ?case using p f by simp
qed

lemma sentBy_Nil: "sentBy x [] s = []"
  by (simp add: sentBy_def)

lemma sentBy_Cons:
  "sentBy x (t # ts) s = sentBy x [t] s @ sentBy x ts (transmit x t s)"
proof -
  obtain pkt where p: "sent (transmit x t s) = sent s @ [Encoded pkt]"
    using transmit_sent by blast
  obtain fs where f: "sent (transmitAll x ts (transmit x t s)) = sent (transmit x t s) @ fs"
    using transmitAll_sent_prefix by blast
  show ?thesis using p f by (simp add: sentBy_def)
qed

lemma sentBy_single:
  "\<exists>pkt. sentBy x [t] s = [pkt]
     \<and> (messageID pkt = msgSetStick) = (\<not> isCommand t)
     \<and> sequence pkt = (if isCommand t then ctrlSeq s + 1 else 0)"
proof -
  obtain pkt where p: "sent (transmit x t s) = sent s @ [Encoded pkt]"
     "messageID pkt = (case t of DoTakeOff \<Rightarrow> msgDoTakeoff | DoLand \<Rightarrow> msgDoLand | StickUpdate now \<Rightarrow> msgSetStick)"
     "sequence pkt = (if isCommand t then ctrlSeq s + 1 else 0)"
    using transmit_sent by blast
  have "(messageID pkt = msgSetStick) = (\<not> isCommand t)" using p(2) by (cases t) simp_all
  thus ?thesis using p by (simp add: sentBy_def)
qed

lemma ctrlSeq_transmit: "ctrlSeq (transmit x t s) = (if isCommand t then ctrlSeq s + 1 else ctrlSeq s)"
  using transmit_sent [of x t s] by blast

lemma stick_updates_carry_zero:
  "\<forall>pkt \<in> set (sentBy x ts s). messageID pkt = msgSetStick \<longrightarrow> sequence pkt = 0"
proof (induction ts arbitrary: s)
  case Nil
  show ?case by (simp add: sentBy_Nil)
next
  case (Cons t ts)
  obtain pkt where p: "sentBy x [t] s = [pkt]" "(messageID pkt = msgSetStick) = (\<not> isCommand t)"
     "sequence pkt = (if isCommand t then ctrlSeq s + 1 else 0)"
    using sentBy_single by blast
  show ?case using p Cons.IH [of "transmit x t s"] by (auto simp: sentBy_Cons [of x t ts s])
qed

lemma upt_0_Suc: "[0 ..< Suc n] = 0 # map Suc [0 ..< n]"
  by (metis upt_conv_Cons map_Suc_upt zero_less_Suc)

lemma commands_carry_counter:
  "map sequence (filter (\<lambda>pkt. messageID pkt \<noteq> msgSetStick) (sentBy x ts s)) =
     map (\<lambda>k. ctrlSeq s + 1 + of_nat k) [0 ..< length (filter isCommand ts)]"
proof (induction ts arbitrary: s)
  case Nil
  show ?case by (simp add: sentBy_Nil)
next
  case (Cons t ts)
  obtain pkt where p: "sentBy x [t] s = [pkt]" "(messageID pkt = msgSetStick) = (\<not> isCommand t)"
     "sequence pkt = (if isCommand t then ctrlSeq s + 1 else 0)"
    using sentBy_single by blast
  show ?case
  proof (cases "isCommand t")
    case False
    thus ?thesis using p Cons.IH [of "transmit x t s"]
      by (simp add: sentBy_Cons [of x t ts s] ctrlSeq_transmit)
  next
    case True
    thus ?thesis using p Cons.IH [of "transmit x t s"]
      by (simp add: sentBy_Cons [of x t ts s] ctrlSeq_transmit upt_0_Suc o_def add.assoc
               del: upt_Suc)
  qed
qed

lemma counter_increasing:
  "unat (c :: 16 word) + n < 65536 \<Longrightarrow> sorted_wrt (<) (map (\<lambda>k. c + 1 + of_nat k) [0 ..< n])"
proof -
  assume b: "unat c + n < 65536"
  have u: "unat (c + of_nat k) = unat c + k" if "k \<le> n" for k
  proof -
    have "unat c + k < 2 ^ 16" using b that by simp
    hence "(unat c + k) mod 2 ^ 16 = unat c + k" by simp
    moreover have "k mod 2 ^ 16 = k" using b that by simp
    ultimately show ?thesis by (simp add: unat_word_ariths unat_of_nat)
  qed
  have "sorted_wrt (\<lambda>i j. c + 1 + of_nat i < c + 1 + of_nat j) [0 ..< n]"
  proof (rule sorted_wrt_mono_rel [OF _ sorted_wrt_upt [of 0 n]])
    fix i j assume "i \<in> set [0 ..< n]" "j \<in> set [0 ..< n]" "i < j"
    hence "Suc i \<le> n" "Suc j \<le> n" "i < j" by auto
    thus "c + 1 + of_nat i < c + 1 + of_nat j"
      using u [of "Suc i"] u [of "Suc j"] by (simp add: word_less_nat_alt add.assoc)
  qed
  thus ?thesis by (simp add: sorted_wrt_map)
qed

text \<open>
  Claim C7, amended. For any interleaving of \<^verbatim>\<open>TakeOff\<close>, \<^verbatim>\<open>Land\<close> and stick updates
  on one connection: every stick-update packet carries the sequence number 0 (and leaves
  the counter alone); the packets of \<^verbatim>\<open>TakeOff\<close> and \<^verbatim>\<open>Land\<close> carry, in order, the
  counter's value before the run plus 1, plus 2, and so on, modulo \<open>2^16\<close>; these are
  strictly increasing as long as the 16-bit counter does not wrap.
\<close>

theorem sequence_numbers:
  "(\<forall>pkt \<in> set (sentBy x ts s). messageID pkt = msgSetStick \<longrightarrow> sequence pkt = 0)
   \<and> map sequence (filter (\<lambda>pkt. messageID pkt \<noteq> msgSetStick) (sentBy x ts s)) =
       map (\<lambda>k. ctrlSeq s + 1 + of_nat k) [0 ..< length (filter isCommand ts)]
   \<and> (unat (ctrlSeq s) + length (filter isCommand ts) < 65536 \<longrightarrow>
       sorted_wrt (<) (map sequence (filter (\<lambda>pkt. messageID pkt \<noteq> msgSetStick) (sentBy x ts s))))"
proof (intro conjI impI)
  show "\<forall>pkt \<in> set (sentBy x ts s). messageID pkt = msgSetStick \<longrightarrow> sequence pkt = 0"
    by (rule stick_updates_carry_zero)
  show c: "map sequence (filter (\<lambda>pkt. messageID pkt \<noteq> msgSetStick) (sentBy x ts s)) =
       map (\<lambda>k. ctrlSeq s + 1 + of_nat k) [0 ..< length (filter isCommand ts)]"
    by (rule commands_carry_counter)
  assume "unat (ctrlSeq s) + length (filter isCommand ts) < 65536"
  thus "sorted_wrt (<) (map sequence (filter (\<lambda>pkt. messageID pkt \<noteq> msgSetStick) (sentBy x ts s)))"
    unfolding c by (rule counter_increasing)
qed

text \<open>
  A take-off, a stick update and a landing from a fresh state: the stick update carries 0,
  the two commands carry 1 and 2.
\<close>

theorem sequence_numbers_witness:
  "(\<exists>pkt \<in> set (sentBy ext0 [DoTakeOff, StickUpdate clock0, DoLand] tello0).
      messageID pkt = msgSetStick \<and> sequence pkt = 0)
   \<and> unat (ctrlSeq tello0) + length (filter isCommand [DoTakeOff, StickUpdate clock0, DoLand]) < 65536
   \<and> map sequence (filter (\<lambda>pkt. messageID pkt \<noteq> msgSetStick)
        (sentBy ext0 [DoTakeOff, StickUpdate clock0, DoLand] tello0)) = [1, 2]
   \<and> sorted_wrt (<) (map sequence (filter (\<lambda>pkt. messageID pkt \<noteq> msgSetStick)
        (sentBy ext0 [DoTakeOff, StickUpdate clock0, DoLand] tello0)))"
  using sequence_numbers [of ext0 "[DoTakeOff, StickUpdate clock0, DoLand]" tello0]
  by (simp add: sentBy_def TakeOff_def Land_def sendStickUpdate_def tello0_def)

text \<open>
  Without the exception for stick updates the statement fails: a take-off followed by one
  stick update of the keepalive loop sends the sequence numbers 1 and then 0, which is not
  increasing.
\<close>

theorem sequence_numbers_counterexample:
  "map sequence (sentBy ext0 [DoTakeOff, StickUpdate clock0] tello0) = [1, 0]
   \<and> \<not> sorted_wrt (<) (map sequence (sentBy ext0 [DoTakeOff, StickUpdate clock0] tello0))"
  by (simp add: sentBy_def TakeOff_def sendStickUpdate_def tello0_def)

subsection \<open>The encoding of one axis\<close>

text \<open>The rounding function: the binade is the right one, and the result is a nearest one.\<close>

lemma bitlen_numeral [simp]:
  "bitlen (numeral n) = bitlen (numeral n div 2) + 1"
  by (subst compute_bitlen) simp

lemma bitlen_1 [simp]: "bitlen 1 = 1"
  by (subst compute_bitlen) simp

lemma binade_bounds:
  assumes "r \<noteq> 0"
  shows "2 powi binade r \<le> \<bar>r\<bar>" and "\<bar>r\<bar> < 2 powi (binade r + 1)"
proof -
  have "2 powi binade r \<le> \<bar>r\<bar> \<and> \<bar>r\<bar> < 2 powi (binade r + 1)"
  proof (cases "1 \<le> \<bar>r\<bar>")
    case True
    define n where "n = \<lfloor>\<bar>r\<bar>\<rfloor>"
    have n: "0 < n" using True by (simp add: n_def)
    hence b: "1 \<le> bitlen n" using bitlen_eq_zero_iff [of n] bitlen_nonneg [of n] by linarith
    have e: "binade r = bitlen n - 1" using True by (simp add: binade_def n_def)
    from bitlen_bounds [OF n] have l: "2 ^ nat (bitlen n - 1) \<le> n" and u: "n < 2 ^ nat (bitlen n)"
      by simp_all
    have "(2 :: real) ^ nat (bitlen n - 1) \<le> of_int n" using l by simp
    moreover have "of_int n \<le> \<bar>r\<bar>" by (simp add: n_def)
    ultimately have 1: "2 ^ nat (bitlen n - 1) \<le> \<bar>r\<bar>" by linarith
    have "n + 1 \<le> 2 ^ nat (bitlen n)" using u by simp
    hence "(of_int (n + 1) :: real) \<le> 2 ^ nat (bitlen n)" by (simp only: of_int_le_numeral_power_cancel_iff)
    moreover have "\<bar>r\<bar> < of_int (n + 1)" unfolding n_def by linarith
    ultimately have 2: "\<bar>r\<bar> < 2 ^ nat (bitlen n)" by linarith
    have p: "(2 :: real) powi (bitlen n - 1) = 2 ^ nat (bitlen n - 1)"
      "(2 :: real) powi (bitlen n - 1 + 1) = 2 ^ nat (bitlen n)"
      using b by (simp_all add: power_int_def)
    show ?thesis using 1 2 by (simp only: e p simp_thms)
  next
    case False
    define t where "t = 1 / \<bar>r\<bar>"
    define m where "m = \<lceil>t\<rceil> - 1"
    have r: "0 < \<bar>r\<bar>" "\<bar>r\<bar> < 1" using assms False by simp_all
    hence t: "1 < t" by (simp add: t_def)
    hence m: "0 < m" by (simp add: m_def less_ceiling_iff)
    hence b: "1 \<le> bitlen m" using bitlen_eq_zero_iff [of m] bitlen_nonneg [of m] by linarith
    have e: "binade r = - bitlen m" using False by (simp add: binade_def m_def t_def)
    from bitlen_bounds [OF m] have l: "2 ^ nat (bitlen m - 1) \<le> m" and u: "m < 2 ^ nat (bitlen m)"
      by simp_all
    have "of_int m < t" unfolding m_def by linarith
    moreover have "(2 :: real) ^ nat (bitlen m - 1) \<le> of_int m" using l by simp
    ultimately have 1: "2 ^ nat (bitlen m - 1) < t" by linarith
    have "m + 1 \<le> 2 ^ nat (bitlen m)" using u by simp
    hence "(of_int (m + 1) :: real) \<le> 2 ^ nat (bitlen m)" by (simp only: of_int_le_numeral_power_cancel_iff)
    moreover have "t \<le> of_int (m + 1)" unfolding m_def by simp
    ultimately have 2: "t \<le> 2 ^ nat (bitlen m)" by linarith
    have rt: "\<bar>r\<bar> = 1 / t" by (simp add: t_def)
    have t0: "0 < t" using t by simp
    have p: "(2 :: real) powi (- bitlen m) = 1 / 2 ^ nat (bitlen m)"
      using b by (simp add: power_int_def field_simps)
    have q: "(2 :: real) powi (- bitlen m + 1) = 1 / 2 ^ nat (bitlen m - 1)"
      using b by (simp add: power_int_def field_simps)
    have 3: "1 / 2 ^ nat (bitlen m) \<le> 1 / t" using 2 t0 by (simp add: frac_le)
    have 4: "1 / t < 1 / 2 ^ nat (bitlen m - 1)" using 1 by (simp add: frac_less2)
    show ?thesis using 3 4 by (simp only: e p q rt simp_thms)
  qed
  thus "2 powi binade r \<le> \<bar>r\<bar>" and "\<bar>r\<bar> < 2 powi (binade r + 1)" by simp_all
qed

lemma roundToEven_nearest: "\<bar>of_int (roundToEven r) - r\<bar> \<le> 1 / 2"
proof -
  have "of_int \<lfloor>r\<rfloor> \<le> r" "r < of_int \<lfloor>r\<rfloor> + 1" by linarith+
  thus ?thesis by (auto simp: roundToEven_def Let_def abs_le_iff)
qed

lemma f64_nearest:
  assumes "r \<noteq> 0"
  shows "\<bar>f64 r - r\<bar> \<le> 2 powi (max (binade r - 52) (- 1074)) / 2"
proof -
  define u :: real where "u = 2 powi (max (binade r - 52) (- 1074))"
  have u: "0 < u" by (simp add: u_def)
  have f: "f64 r = of_int (roundToEven (r / u)) * u" using assms by (simp add: f64_def Let_def u_def)
  have "f64 r - r = (of_int (roundToEven (r / u)) - r / u) * u" using u by (simp add: f field_simps)
  hence "\<bar>f64 r - r\<bar> = \<bar>of_int (roundToEven (r / u)) - r / u\<bar> * u" using u by (simp add: abs_mult)
  also have "\<dots> \<le> 1 / 2 * u" using roundToEven_nearest [of "r / u"] u by (intro mult_right_mono) simp_all
  finally show ?thesis by (simp add: u_def)
qed

text \<open>
  Three values: the float64 nearest to one tenth and to three tenths, and 1/1024, which is
  a float64.
\<close>

lemma f64_values:
  "f64 (1 / 10) = 3602879701896397 / 36028797018963968"
  "f64 (3 / 10) = 5404319552844595 / 18014398509481984"
  "f64 (1 / 1024) = 1 / 1024"
  by (simp_all add: f64_def binade_def roundToEven_def)

text \<open>
  Rounding does not cross an integer: below \<open>2^53\<close> every integer is a float64, so the
  float64 nearest to \<open>r\<close> lies on the same side of every integer as \<open>r\<close> does.
\<close>

lemma roundToEven_ge: "of_int m \<le> r \<Longrightarrow> m \<le> roundToEven r"
proof -
  assume "of_int m \<le> r"
  hence "m \<le> \<lfloor>r\<rfloor>" by (simp add: le_floor_iff)
  thus ?thesis by (simp add: roundToEven_def Let_def)
qed

lemma roundToEven_le: "r \<le> of_int m \<Longrightarrow> roundToEven r \<le> m"
proof -
  assume a: "r \<le> of_int m"
  hence f: "\<lfloor>r\<rfloor> \<le> m" by (simp add: floor_le_iff)
  show ?thesis
  proof (cases "\<lfloor>r\<rfloor> = m")
    case True
    hence "r - of_int \<lfloor>r\<rfloor> \<le> 0" using a by simp
    hence "r - of_int \<lfloor>r\<rfloor> < 1 / 2" by simp
    thus ?thesis using True by (simp add: roundToEven_def Let_def)
  next
    case False
    hence "\<lfloor>r\<rfloor> + 1 \<le> m" using f by simp
    thus ?thesis using f by (simp add: roundToEven_def Let_def)
  qed
qed

lemma binade_le_52:
  assumes "\<bar>r\<bar> < 2 ^ 53"
  shows "binade r \<le> 52"
proof (cases "1 \<le> \<bar>r\<bar>")
  case True
  have "\<lfloor>\<bar>r\<bar>\<rfloor> < 2 ^ 53" using assms by (simp add: floor_less_iff)
  hence "bitlen \<lfloor>\<bar>r\<bar>\<rfloor> \<le> 53" using bitlen_le_iff_power [of "\<lfloor>\<bar>r\<bar>\<rfloor>" 53] by simp
  thus ?thesis using True by (simp add: binade_def)
next
  case False
  have "0 \<le> bitlen (\<lceil>1 / \<bar>r\<bar>\<rceil> - 1)" by (rule bitlen_nonneg)
  thus ?thesis using False by (simp add: binade_def)
qed

lemma f64_unit:
  assumes "\<bar>r\<bar> < 2 ^ 53" "r \<noteq> 0"
  obtains k where "f64 r = of_int (roundToEven (r * 2 ^ k)) / 2 ^ k"
proof -
  define e where "e = max (binade r - 52) (- 1074)"
  have "e \<le> 0" using binade_le_52 [OF assms(1)] by (simp add: e_def)
  hence p: "(2 :: real) powi e = 1 / 2 ^ nat (- e)" by (simp add: power_int_def field_simps)
  have "f64 r = of_int (roundToEven (r / 2 powi e)) * 2 powi e"
    using assms(2) by (simp add: f64_def e_def Let_def)
  hence "f64 r = of_int (roundToEven (r * 2 ^ nat (- e))) / 2 ^ nat (- e)" by (simp add: p)
  thus ?thesis by (rule that)
qed

lemma f64_ge_int:
  assumes "\<bar>r\<bar> < 2 ^ 53" "of_int n \<le> r"
  shows "of_int n \<le> f64 r"
proof (cases "r = 0")
  case True thus ?thesis using assms(2) by (simp add: f64_def)
next
  case False
  from f64_unit [OF assms(1) False] obtain k
    where k: "f64 r = of_int (roundToEven (r * 2 ^ k)) / 2 ^ k" .
  have "of_int (n * 2 ^ k) \<le> r * 2 ^ k" using assms(2) by simp
  hence "n * 2 ^ k \<le> roundToEven (r * 2 ^ k)" by (rule roundToEven_ge)
  hence "(of_int (n * 2 ^ k) :: real) \<le> of_int (roundToEven (r * 2 ^ k))" by (simp only: of_int_le_iff)
  thus ?thesis by (simp add: k field_simps)
qed

lemma f64_le_int:
  assumes "\<bar>r\<bar> < 2 ^ 53" "r \<le> of_int n"
  shows "f64 r \<le> of_int n"
proof (cases "r = 0")
  case True thus ?thesis using assms(2) by (simp add: f64_def)
next
  case False
  from f64_unit [OF assms(1) False] obtain k
    where k: "f64 r = of_int (roundToEven (r * 2 ^ k)) / 2 ^ k" .
  have "r * 2 ^ k \<le> of_int (n * 2 ^ k)" using assms(2) by simp
  hence "roundToEven (r * 2 ^ k) \<le> n * 2 ^ k" by (rule roundToEven_le)
  hence "(of_int (roundToEven (r * 2 ^ k)) :: real) \<le> of_int (n * 2 ^ k)" by (simp only: of_int_le_iff)
  thus ?thesis by (simp add: k field_simps)
qed

lemma f64_mul_add_between:
  assumes "\<bar>a * b\<bar> < 2 ^ 51" "\<bar>c\<bar> < 2 ^ 51" "c = of_int n"
  shows "of_int \<lfloor>a * b + c\<rfloor> \<le> f64_mul_add x a b c" 
    and "f64_mul_add x a b c \<le> of_int \<lceil>a * b + c\<rceil>"
proof -
  define y where "y = a * b + c"
  have y2: "\<bar>y\<bar> < 2 ^ 52" using assms(1,2) by (simp add: y_def)
  hence y: "\<bar>y\<bar> < 2 ^ 53" by simp
  have lo: "of_int \<lfloor>y\<rfloor> \<le> y" and hi: "y \<le> of_int \<lceil>y\<rceil>" by simp_all
  define p where "p = f64 (a * b)"
  have ab: "\<bar>a * b\<bar> < 2 ^ 53" using assms(1) by simp
  have fl: "\<lfloor>y\<rfloor> = \<lfloor>a * b\<rfloor> + n" and ce: "\<lceil>y\<rceil> = \<lceil>a * b\<rceil> + n"
    by (simp_all add: y_def assms(3))
  have "of_int \<lfloor>a * b\<rfloor> \<le> p" unfolding p_def by (rule f64_ge_int [OF ab]) simp
  hence plo: "of_int \<lfloor>y\<rfloor> \<le> p + c" by (simp add: fl assms(3))
  have "p \<le> of_int \<lceil>a * b\<rceil>" unfolding p_def by (rule f64_le_int [OF ab]) simp
  hence phi: "p + c \<le> of_int \<lceil>y\<rceil>" by (simp add: ce assms(3))
  have "- 4503599627370496 \<le> \<lfloor>y\<rfloor>" using y2 by (simp add: le_floor_iff abs_less_iff)
  hence f: "- 9007199254740992 < (of_int \<lfloor>y\<rfloor> :: real)" by linarith
  have "\<lceil>y\<rceil> \<le> 4503599627370496" using y2 by (simp add: ceiling_le_iff abs_less_iff)
  hence g: "(of_int \<lceil>y\<rceil> :: real) < 9007199254740992" by linarith
  have "- 9007199254740992 < p + c" "p + c < 9007199254740992" using f g plo phi by linarith+
  hence pc: "\<bar>p + c\<bar> < 2 ^ 53" by (simp add: abs_less_iff)
  show "of_int \<lfloor>a * b + c\<rfloor> \<le> f64_mul_add x a b c"
    using f64_ge_int [OF y lo] f64_ge_int [OF pc plo]
    by (simp add: f64_mul_add_def y_def p_def)
  show "f64_mul_add x a b c \<le> of_int \<lceil>a * b + c\<rceil>"
    using f64_le_int [OF y hi] f64_le_int [OF pc phi]
    by (simp add: f64_mul_add_def y_def p_def)
qed

lemma jsFloatToTello_0: "jsFloatToTello x 0 = 1024"
  by (simp add: jsFloatToTello_def f64_mul_add_def f64_to_uint64_def trunc_def f64_def binade_def
      roundToEven_def)

lemma jsFloatToTello_1: "jsFloatToTello x 1 = 1684"
  by (simp add: jsFloatToTello_def f64_mul_add_def f64_to_uint64_def trunc_def f64_def binade_def
      roundToEven_def)

lemma jsFloatToTello_2: "jsFloatToTello x 2 = 2344"
  by (simp add: jsFloatToTello_def f64_mul_add_def f64_to_uint64_def trunc_def f64_def binade_def
      roundToEven_def)

lemma f64_to_uint64_in_range:
  assumes "0 \<le> r" "r < 2 ^ 64"
  shows "uint (f64_to_uint64 x r) = \<lfloor>r\<rfloor>"
proof -
  have lo: "0 \<le> \<lfloor>r\<rfloor>" using assms(1) by simp
  have "\<lfloor>r\<rfloor> < 2 ^ 64" using assms(2) by (simp add: floor_less_iff)
  with lo show ?thesis using assms(1)
    by (simp add: f64_to_uint64_def trunc_def uint_word_of_int)
qed

lemma jsFloatToTello_in_range:
  assumes "-1 \<le> fv" "fv \<le> 1"
  shows "uint (jsFloatToTello x fv) = \<lfloor>f64_mul_add x 660 fv 1024\<rfloor>"
    and "\<lfloor>660 * fv + 1024\<rfloor> \<le> uint (jsFloatToTello x fv)"
    and "uint (jsFloatToTello x fv) \<le> \<lceil>660 * fv + 1024\<rceil>"
    and "364 \<le> uint (jsFloatToTello x fv)" and "uint (jsFloatToTello x fv) \<le> 1684"
proof -
  define y where "y = 660 * fv + 1024"
  define v where "v = f64_mul_add x 660 fv 1024"
  have b: "364 \<le> y" "y \<le> 1684" using assms by (auto simp: y_def)
  have m: "\<bar>660 * fv\<bar> < 2 ^ 51" using assms by (simp add: abs_less_iff)
  have c: "\<bar>1024 :: real\<bar> < 2 ^ 51" "(1024 :: real) = of_int 1024" by simp_all
  have lo: "of_int \<lfloor>y\<rfloor> \<le> v" and hi: "v \<le> of_int \<lceil>y\<rceil>"
    unfolding v_def y_def by (rule f64_mul_add_between [OF m c])+
  have fy: "364 \<le> \<lfloor>y\<rfloor>" using b(1) by (simp add: le_floor_iff)
  have cy: "\<lceil>y\<rceil> \<le> 1684" using b(2) by (simp add: ceiling_le_iff)
  have "(364 :: real) \<le> of_int \<lfloor>y\<rfloor>" using fy by linarith
  hence v0: "364 \<le> v" using lo by linarith
  have "(of_int \<lceil>y\<rceil> :: real) \<le> 1684" using cy by linarith
  hence v1: "v \<le> 1684" using hi by linarith
  have "0 \<le> v" "v < 2 ^ 64" using v0 v1 by simp_all
  hence u: "uint (f64_to_uint64 x v) = \<lfloor>v\<rfloor>" by (rule f64_to_uint64_in_range)
  have j: "uint (jsFloatToTello x fv) = \<lfloor>v\<rfloor>" using u by (simp add: jsFloatToTello_def v_def)
  show "uint (jsFloatToTello x fv) = \<lfloor>f64_mul_add x 660 fv 1024\<rfloor>" using j by (simp add: v_def)
  have l: "\<lfloor>y\<rfloor> \<le> \<lfloor>v\<rfloor>" using lo by (simp add: le_floor_iff)
  have h: "\<lfloor>v\<rfloor> \<le> \<lceil>y\<rceil>" using hi by (simp add: floor_le_iff)
  show "\<lfloor>660 * fv + 1024\<rfloor> \<le> uint (jsFloatToTello x fv)" using l by (simp add: j y_def)
  show "uint (jsFloatToTello x fv) \<le> \<lceil>660 * fv + 1024\<rceil>" using h by (simp add: j y_def)
  show "364 \<le> uint (jsFloatToTello x fv)" using l fy j by linarith
  show "uint (jsFloatToTello x fv) \<le> 1684" using h cy j by linarith
qed

lemma jsFloatToTello_11_bits: 
  assumes "-1 \<le> fv" "fv \<le> 1"
  shows "take_bit 11 (jsFloatToTello x fv) = jsFloatToTello x fv"
proof -
  have "uint (jsFloatToTello x fv) < 2048" using jsFloatToTello_in_range(5) [OF assms, of x] by simp
  hence "jsFloatToTello x fv < 2 ^ 11" by (simp add: word_less_def)
  thus ?thesis by (simp add: take_bit_eq_mask less_mask_eq)
qed

lemma packedAxes_depends_on_sticks:
  assumes "ctrlRx s = ctrlRx s'" "ctrlRy s = ctrlRy s'" "ctrlLx s = ctrlLx s'" "ctrlLy s = ctrlLy s'"
    "ctrlThrottle s = ctrlThrottle s'"
  shows "packedAxes x s = packedAxes x s'"
  unfolding packedAxes_def assms ..

lemma take_6_stickPayload:
  "take 6 (stickPayload x now s) =
     [ucast (packedAxes x s), ucast (drop_bit 8 (packedAxes x s)), ucast (drop_bit 16 (packedAxes x s)),
      ucast (drop_bit 24 (packedAxes x s)), ucast (drop_bit 32 (packedAxes x s)),
      ucast (drop_bit 40 (packedAxes x s))]"
  by (simp add: stickPayload_def Let_def)

lemma packedAxes_zero:
  assumes "ctrlRx s = 0" "ctrlRy s = 0" "ctrlLx s = 0" "ctrlLy s = 0" "ctrlThrottle s = 0"
  shows "packedAxes x s = 18023198899569664"
  unfolding packedAxes_def assms by (simp add: jsFloatToTello_0 f64_0_1_def)

text \<open>
  Claim C5, amended: for every axis value in \<open>[-1, 1]\<close> the encoder gives the integer
  part of the float64 value of \<open>660 * value + 1024\<close> (the fraction is dropped, not
  rounded), which is the floor or the ceiling of the exact \<open>660 * value + 1024\<close> and a
  number below \<open>2^11\<close>; 0 encodes to 1024, the state with all sticks at 0 packs to 1024
  in each of the five fields, and the packed word (with payload bytes 0 to 5) depends on
  the five stick values only, not on the time of the call nor on the rest of the state.
\<close>

theorem jsFloatToTello_truncates:
  "(- 1 \<le> fv \<and> fv \<le> 1 \<longrightarrow>
      uint (jsFloatToTello x fv) = \<lfloor>f64_mul_add x 660 fv 1024\<rfloor>
      \<and> \<lfloor>660 * fv + 1024\<rfloor> \<le> uint (jsFloatToTello x fv)
      \<and> uint (jsFloatToTello x fv) \<le> \<lceil>660 * fv + 1024\<rceil>
      \<and> jsFloatToTello x fv < 2 ^ 11)
   \<and> jsFloatToTello x 0 = 1024
   \<and> (ctrlRx s = 0 \<and> ctrlRy s = 0 \<and> ctrlLx s = 0 \<and> ctrlLy s = 0 \<and> ctrlThrottle s = 0 \<longrightarrow>
        packedAxes x s = 18023198899569664)
   \<and> (ctrlRx s = ctrlRx s' \<and> ctrlRy s = ctrlRy s' \<and> ctrlLx s = ctrlLx s' \<and> ctrlLy s = ctrlLy s'
        \<and> ctrlThrottle s = ctrlThrottle s' \<longrightarrow>
        packedAxes x s = packedAxes x s'
        \<and> take 6 (stickPayload x now s) = take 6 (stickPayload x now' s'))"
proof (intro conjI impI)
  assume r: "- 1 \<le> fv \<and> fv \<le> 1"
  hence r1: "- 1 \<le> fv" and r2: "fv \<le> 1" by simp_all
  show "uint (jsFloatToTello x fv) = \<lfloor>f64_mul_add x 660 fv 1024\<rfloor>"
    by (rule jsFloatToTello_in_range(1) [OF r1 r2])
  show "\<lfloor>660 * fv + 1024\<rfloor> \<le> uint (jsFloatToTello x fv)"
    by (rule jsFloatToTello_in_range(2) [OF r1 r2])
  show "uint (jsFloatToTello x fv) \<le> \<lceil>660 * fv + 1024\<rceil>"
    by (rule jsFloatToTello_in_range(3) [OF r1 r2])
  have "uint (jsFloatToTello x fv) < 2048" using jsFloatToTello_in_range(5) [OF r1 r2, of x] by simp
  thus "jsFloatToTello x fv < 2 ^ 11" by (simp add: word_less_def)
next
  show "jsFloatToTello x 0 = 1024" by (rule jsFloatToTello_0)
next
  assume "ctrlRx s = 0 \<and> ctrlRy s = 0 \<and> ctrlLx s = 0 \<and> ctrlLy s = 0 \<and> ctrlThrottle s = 0"
  thus "packedAxes x s = 18023198899569664" by (intro packedAxes_zero) simp_all
next
  assume e: "ctrlRx s = ctrlRx s' \<and> ctrlRy s = ctrlRy s' \<and> ctrlLx s = ctrlLx s' \<and> ctrlLy s = ctrlLy s'
        \<and> ctrlThrottle s = ctrlThrottle s'"
  thus p: "packedAxes x s = packedAxes x s'" by (intro packedAxes_depends_on_sticks) simp_all
  show "take 6 (stickPayload x now s) = take 6 (stickPayload x now' s')"
    unfolding take_6_stickPayload p ..
qed

text \<open>
  The float64 nearest to three tenths, \<open>5404319552844595 / 2^54\<close>, where the float64 sum
  is 1222 and the exact one just below it; the zero state; and two states with equal
  sticks encoded at different times.
\<close>

theorem jsFloatToTello_truncates_witness:
  "- 1 \<le> (5404319552844595 / 18014398509481984 :: real)
   \<and> (5404319552844595 / 18014398509481984 :: real) \<le> 1
   \<and> uint (jsFloatToTello ext0 (5404319552844595 / 18014398509481984)) = 1222
   \<and> \<lfloor>660 * (5404319552844595 / 18014398509481984 :: real) + 1024\<rfloor> = 1221
   \<and> \<lceil>660 * (5404319552844595 / 18014398509481984 :: real) + 1024\<rceil> = 1222
   \<and> jsFloatToTello ext0 (5404319552844595 / 18014398509481984) < 2 ^ 11
   \<and> ctrlRx tello0 = 0 \<and> ctrlRy tello0 = 0 \<and> ctrlLx tello0 = 0 \<and> ctrlLy tello0 = 0
   \<and> ctrlThrottle tello0 = 0
   \<and> packedAxes ext0 tello0 = 18023198899569664
   \<and> ctrlRx tello0 = ctrlRx (TakeOff ext0 tello0) \<and> ctrlRy tello0 = ctrlRy (TakeOff ext0 tello0)
   \<and> ctrlLx tello0 = ctrlLx (TakeOff ext0 tello0) \<and> ctrlLy tello0 = ctrlLy (TakeOff ext0 tello0)
   \<and> ctrlThrottle tello0 = ctrlThrottle (TakeOff ext0 tello0)
   \<and> take 6 (stickPayload ext0 clock0 tello0)
       = take 6 (stickPayload ext0 (clock0\<lparr> Hour := 23 \<rparr>) (TakeOff ext0 tello0))"
proof -
  define c :: real where "c = 5404319552844595 / 18014398509481984"
  have r: "- 1 \<le> c \<and> c \<le> 1" by (simp add: c_def)
  have z: "ctrlRx tello0 = 0 \<and> ctrlRy tello0 = 0 \<and> ctrlLx tello0 = 0 \<and> ctrlLy tello0 = 0
     \<and> ctrlThrottle tello0 = 0"
    by (simp add: tello0_def)
  have e: "ctrlRx tello0 = ctrlRx (TakeOff ext0 tello0) \<and> ctrlRy tello0 = ctrlRy (TakeOff ext0 tello0)
     \<and> ctrlLx tello0 = ctrlLx (TakeOff ext0 tello0) \<and> ctrlLy tello0 = ctrlLy (TakeOff ext0 tello0)
     \<and> ctrlThrottle tello0 = ctrlThrottle (TakeOff ext0 tello0)"
    by (simp add: TakeOff_def Let_def)
  have f: "\<lfloor>660 * c + 1024\<rfloor> = 1221" "\<lceil>660 * c + 1024\<rceil> = 1222" by (simp_all add: c_def)
  have v: "\<lfloor>f64_mul_add ext0 660 c 1024\<rfloor> = 1222"
    by (simp add: c_def f64_mul_add_def ext0_def f64_def binade_def roundToEven_def)
  note t = jsFloatToTello_truncates
             [of c ext0 tello0 "TakeOff ext0 tello0" clock0 "clock0\<lparr> Hour := 23 \<rparr>"]
  from t r have "uint (jsFloatToTello ext0 c) = \<lfloor>f64_mul_add ext0 660 c 1024\<rfloor>
      \<and> jsFloatToTello ext0 c < 2 ^ 11"
    by blast
  hence 1: "uint (jsFloatToTello ext0 c) = 1222 \<and> jsFloatToTello ext0 c < 2 ^ 11"
    by (simp only: v)
  from t z have 2: "packedAxes ext0 tello0 = 18023198899569664" by blast
  from t e have 3: "take 6 (stickPayload ext0 clock0 tello0)
       = take 6 (stickPayload ext0 (clock0\<lparr> Hour := 23 \<rparr>) (TakeOff ext0 tello0))" by blast
  show ?thesis using r z e f 1 2 3 unfolding c_def by blast
qed

text \<open>
  The encoder does not round: \<^verbatim>\<open>uint64(660*fv + 1024)\<close> drops the fraction. At
  \<open>fv = 1/1024\<close>, a float64, the product 0.64453125 and the sum 1024.64453125 are
  float64 values too, so that neither operation rounds: the code gives 1024 and rounding
  to the nearest integer would give 1025.
\<close>

theorem jsFloatToTello_counterexample:
  "- 1 \<le> (1 / 1024 :: real) \<and> (1 / 1024 :: real) \<le> 1
   \<and> f64 (1 / 1024) = 1 / 1024
   \<and> f64_mul_add ext0 660 (1 / 1024) 1024 = 660 * (1 / 1024) + 1024
   \<and> uint (jsFloatToTello ext0 (1 / 1024)) = 1024
   \<and> round (660 * (1 / 1024 :: real) + 1024) = 1025"
  by (simp add: jsFloatToTello_def f64_mul_add_def f64_to_uint64_def trunc_def round_def
      f64_def binade_def roundToEven_def ext0_def)

subsection \<open>The packed word\<close>

lemma low_48_little_endian:
  "take_bit 48 (p :: 64 word) =
     ucast (ucast p :: byte) OR push_bit 8 (ucast (ucast (drop_bit 8 p) :: byte))
     OR push_bit 16 (ucast (ucast (drop_bit 16 p) :: byte))
     OR push_bit 24 (ucast (ucast (drop_bit 24 p) :: byte))
     OR push_bit 32 (ucast (ucast (drop_bit 32 p) :: byte))
     OR push_bit 40 (ucast (ucast (drop_bit 40 p) :: byte))"
  (is "?lhs = ?rhs")
proof (rule bit_word_eqI)
  fix n assume "n < LENGTH(64)"
  have a: "k + (n - k) = n" if "k \<le> n" for k using that by simp
  show "bit ?lhs n = bit ?rhs n"
    by (cases "n < 8"; cases "n < 16"; cases "n < 24"; cases "n < 32"; cases "n < 40"; cases "n < 48")
       (auto simp: bit_simps a)
qed

lemma packedAxes_saturated:
  "f64_0_1 < ctrlThrottle s \<Longrightarrow> \<exists>p. packedAxes x s = p OR push_bit 44 0x7ff"
  unfolding packedAxes_def Let_def by (simp only: if_True) blast

lemma field_0:
  "take_bit 11 ((((take_bit 11 (a :: 64 word) OR push_bit 11 b) OR push_bit 22 c) OR push_bit 33 d)
      OR push_bit 44 e) = take_bit 11 a"
  by (intro bit_word_eqI) (auto simp: bit_simps)

lemma field_11:
  "take_bit 11 (drop_bit 11 ((((take_bit 11 (a :: 64 word) OR push_bit 11 (take_bit 11 b))
      OR push_bit 22 c) OR push_bit 33 d) OR push_bit 44 e)) = take_bit 11 b"
  by (intro bit_word_eqI) (auto simp: bit_simps)

lemma field_22:
  "take_bit 11 (drop_bit 22 ((((take_bit 11 (a :: 64 word) OR push_bit 11 (take_bit 11 b))
      OR push_bit 22 (take_bit 11 c)) OR push_bit 33 d) OR push_bit 44 e)) = take_bit 11 c"
  by (intro bit_word_eqI) (auto simp: bit_simps)

lemma field_33:
  "take_bit 11 (drop_bit 33 ((((take_bit 11 (a :: 64 word) OR push_bit 11 (take_bit 11 b))
      OR push_bit 22 (take_bit 11 c)) OR push_bit 33 (take_bit 11 d)) OR push_bit 44 e))
   = take_bit 11 d"
  by (intro bit_word_eqI) (auto simp: bit_simps)

lemma field_44:
  "take_bit 11 (drop_bit 44 ((((take_bit 11 (a :: 64 word) OR push_bit 11 (take_bit 11 b))
      OR push_bit 22 (take_bit 11 c)) OR push_bit 33 (take_bit 11 d)) OR push_bit 44 e))
   = take_bit 11 e"
  by (intro bit_word_eqI) (auto simp: bit_simps)

lemma field_44_saturated:
  "take_bit 11 (drop_bit 44 (p OR push_bit 44 (0x7ff :: 64 word))) = 0x7ff"
proof -
  have m: "(0x7ff :: 64 word) = mask 11" by (simp add: mask_eq_exp_minus_1)
  show ?thesis unfolding m by (intro bit_word_eqI) (auto simp: bit_simps)
qed

lemma packedAxes_in_range:
  assumes "-1 \<le> ctrlRx s" "ctrlRx s \<le> 1" "-1 \<le> ctrlRy s" "ctrlRy s \<le> 1"
    "-1 \<le> ctrlLy s" "ctrlLy s \<le> 1" "-1 \<le> ctrlLx s" "ctrlLx s \<le> 1"
  shows "\<exists>e. packedAxes x s =
     (((take_bit 11 (jsFloatToTello x (ctrlRx s)) OR push_bit 11 (take_bit 11 (jsFloatToTello x (ctrlRy s))))
     OR push_bit 22 (take_bit 11 (jsFloatToTello x (ctrlLy s)))) OR push_bit 33 (take_bit 11 (jsFloatToTello x (ctrlLx s))))
     OR push_bit 44 e
     \<and> e = (if f64_0_1 < ctrlThrottle s then 0x7ff else jsFloatToTello x (ctrlThrottle s))"
  unfolding jsFloatToTello_11_bits [OF assms(1,2)] jsFloatToTello_11_bits [OF assms(3,4)]
    jsFloatToTello_11_bits [OF assms(5,6)] jsFloatToTello_11_bits [OF assms(7,8)]
  unfolding packedAxes_def Let_def
  by (cases "f64_0_1 < ctrlThrottle s") (simp_all only: if_True if_False, blast+)

text \<open>
  No range check stands between the caller and the encoder: the stick listener stores
  whatever the message holds, and the keepalive loop encodes it.
\<close>

lemma stickListener_stores_any_value:
  "ctrlRx (stickListenerReceive sm s) = Rx sm \<and> ctrlRy (stickListenerReceive sm s) = Ry sm
   \<and> ctrlLx (stickListenerReceive sm s) = Lx sm \<and> ctrlLy (stickListenerReceive sm s) = Ly sm
   \<and> ctrlThrottle (stickListenerReceive sm s) = Throttle sm"
  by (simp add: stickListenerReceive_def)

text \<open>
  Claim C6, amended. For every state whose four axis values lie in \<open>[-1, 1]\<close>, bits 0
  to 10 of the packed word are the field of Rx, bits 11 to 21 of Ry, bits 22 to 32 of Ly and
  bits 33 to 43 of Lx. For every state, payload bytes 0 to 5 are the low 48 bits of the
  packed word, least significant byte first.
\<close>

theorem packedAxes_layout:
  "(- 1 \<le> ctrlRx s \<and> ctrlRx s \<le> 1 \<and> - 1 \<le> ctrlRy s \<and> ctrlRy s \<le> 1
      \<and> - 1 \<le> ctrlLy s \<and> ctrlLy s \<le> 1 \<and> - 1 \<le> ctrlLx s \<and> ctrlLx s \<le> 1 \<longrightarrow>
      take_bit 11 (packedAxes x s) = jsFloatToTello x (ctrlRx s)
      \<and> take_bit 11 (drop_bit 11 (packedAxes x s)) = jsFloatToTello x (ctrlRy s)
      \<and> take_bit 11 (drop_bit 22 (packedAxes x s)) = jsFloatToTello x (ctrlLy s)
      \<and> take_bit 11 (drop_bit 33 (packedAxes x s)) = jsFloatToTello x (ctrlLx s))
   \<and> (\<exists>b0 b1 b2 b3 b4 b5.
        take 6 (stickPayload x now s) = [b0, b1, b2, b3, b4, b5]
        \<and> take_bit 48 (packedAxes x s) =
            ucast b0 OR push_bit 8 (ucast b1) OR push_bit 16 (ucast b2) OR push_bit 24 (ucast b3)
            OR push_bit 32 (ucast b4) OR push_bit 40 (ucast b5))"
proof (intro conjI impI)
  assume a: "- 1 \<le> ctrlRx s \<and> ctrlRx s \<le> 1 \<and> - 1 \<le> ctrlRy s \<and> ctrlRy s \<le> 1
      \<and> - 1 \<le> ctrlLy s \<and> ctrlLy s \<le> 1 \<and> - 1 \<le> ctrlLx s \<and> ctrlLx s \<le> 1"
  then obtain e where e: "packedAxes x s =
     (((take_bit 11 (jsFloatToTello x (ctrlRx s)) OR push_bit 11 (take_bit 11 (jsFloatToTello x (ctrlRy s))))
     OR push_bit 22 (take_bit 11 (jsFloatToTello x (ctrlLy s)))) OR push_bit 33 (take_bit 11 (jsFloatToTello x (ctrlLx s))))
     OR push_bit 44 e"
    using packedAxes_in_range [of s x] by blast
  have b: "take_bit 11 (jsFloatToTello x (ctrlRx s)) = jsFloatToTello x (ctrlRx s)"
    "take_bit 11 (jsFloatToTello x (ctrlRy s)) = jsFloatToTello x (ctrlRy s)"
    "take_bit 11 (jsFloatToTello x (ctrlLy s)) = jsFloatToTello x (ctrlLy s)"
    "take_bit 11 (jsFloatToTello x (ctrlLx s)) = jsFloatToTello x (ctrlLx s)"
    using a by (simp_all add: jsFloatToTello_11_bits)
  show "take_bit 11 (packedAxes x s) = jsFloatToTello x (ctrlRx s)"
    unfolding e field_0 by (rule b(1))
  show "take_bit 11 (drop_bit 11 (packedAxes x s)) = jsFloatToTello x (ctrlRy s)"
    unfolding e field_11 by (rule b(2))
  show "take_bit 11 (drop_bit 22 (packedAxes x s)) = jsFloatToTello x (ctrlLy s)"
    unfolding e field_22 by (rule b(3))
  show "take_bit 11 (drop_bit 33 (packedAxes x s)) = jsFloatToTello x (ctrlLx s)"
    unfolding e field_33 by (rule b(4))
next
  show "\<exists>b0 b1 b2 b3 b4 b5.
        take 6 (stickPayload x now s) = [b0, b1, b2, b3, b4, b5]
        \<and> take_bit 48 (packedAxes x s) =
            ucast b0 OR push_bit 8 (ucast b1) OR push_bit 16 (ucast b2) OR push_bit 24 (ucast b3)
            OR push_bit 32 (ucast b4) OR push_bit 40 (ucast b5)"
    unfolding take_6_stickPayload using low_48_little_endian [of "packedAxes x s"] by blast
qed

text \<open>
  The state with \<open>Rx = 1\<close> and the other sticks at 0.
\<close>

theorem packedAxes_layout_witness:
  "- 1 \<le> ctrlRx (tello0\<lparr> ctrlRx := 1 \<rparr>) \<and> ctrlRx (tello0\<lparr> ctrlRx := 1 \<rparr>) \<le> 1
   \<and> - 1 \<le> ctrlRy (tello0\<lparr> ctrlRx := 1 \<rparr>) \<and> ctrlRy (tello0\<lparr> ctrlRx := 1 \<rparr>) \<le> 1
   \<and> - 1 \<le> ctrlLy (tello0\<lparr> ctrlRx := 1 \<rparr>) \<and> ctrlLy (tello0\<lparr> ctrlRx := 1 \<rparr>) \<le> 1
   \<and> - 1 \<le> ctrlLx (tello0\<lparr> ctrlRx := 1 \<rparr>) \<and> ctrlLx (tello0\<lparr> ctrlRx := 1 \<rparr>) \<le> 1
   \<and> take_bit 11 (packedAxes ext0 (tello0\<lparr> ctrlRx := 1 \<rparr>)) = 1684
   \<and> take_bit 11 (drop_bit 11 (packedAxes ext0 (tello0\<lparr> ctrlRx := 1 \<rparr>))) = 1024
   \<and> take_bit 11 (drop_bit 22 (packedAxes ext0 (tello0\<lparr> ctrlRx := 1 \<rparr>))) = 1024
   \<and> take_bit 11 (drop_bit 33 (packedAxes ext0 (tello0\<lparr> ctrlRx := 1 \<rparr>))) = 1024"
proof -
  let ?s = "tello0\<lparr> ctrlRx := 1 \<rparr>"
  have a: "- 1 \<le> ctrlRx ?s \<and> ctrlRx ?s \<le> 1 \<and> - 1 \<le> ctrlRy ?s \<and> ctrlRy ?s \<le> 1
      \<and> - 1 \<le> ctrlLy ?s \<and> ctrlLy ?s \<le> 1 \<and> - 1 \<le> ctrlLx ?s \<and> ctrlLx ?s \<le> 1"
    by (simp add: tello0_def)
  have v: "jsFloatToTello ext0 (ctrlRx ?s) = 1684" "jsFloatToTello ext0 (ctrlRy ?s) = 1024"
    "jsFloatToTello ext0 (ctrlLy ?s) = 1024" "jsFloatToTello ext0 (ctrlLx ?s) = 1024"
    by (simp_all add: tello0_def jsFloatToTello_0 jsFloatToTello_1)
  from packedAxes_layout [of ?s ext0 clock0] a
  have "take_bit 11 (packedAxes ext0 ?s) = jsFloatToTello ext0 (ctrlRx ?s)
      \<and> take_bit 11 (drop_bit 11 (packedAxes ext0 ?s)) = jsFloatToTello ext0 (ctrlRy ?s)
      \<and> take_bit 11 (drop_bit 22 (packedAxes ext0 ?s)) = jsFloatToTello ext0 (ctrlLy ?s)
      \<and> take_bit 11 (drop_bit 33 (packedAxes ext0 ?s)) = jsFloatToTello ext0 (ctrlLx ?s)"
    by blast
  thus ?thesis using a unfolding v by blast
qed

text \<open>
  The range is needed, and the code does not enforce it: with the right stick at
  \<open>Rx = 2\<close> the axis encodes to 2344, which takes 12 bits; its top bit is or-ed into bit
  11, and bits 11 to 21 of the packed word are 1025 where the field of \<open>Ry = 0\<close> is 1024.
\<close>

theorem packedAxes_layout_counterexample:
  "take_bit 11 (drop_bit 11 (packedAxes ext0 (tello0\<lparr> ctrlRx := 2 \<rparr>))) = 1025
   \<and> jsFloatToTello ext0 (ctrlRy (tello0\<lparr> ctrlRx := 2 \<rparr>)) = 1024"
  by (simp add: packedAxes_def tello0_def f64_0_1_def jsFloatToTello_0 jsFloatToTello_2)

text \<open>
  Claim C4, amended. For every state with throttle above 0.1, bits 44 to 54 of the
  packed word are \<open>0x7FF\<close>. For every state with throttle at most 0.1 whose four axes
  and throttle lie in \<open>[-1, 1]\<close>, bits 44 to 54 of the packed word are the value that
  \<^verbatim>\<open>jsFloatToTello\<close> gives for the throttle.
\<close>

theorem throttle_field:
  "(f64_0_1 < ctrlThrottle s \<longrightarrow> take_bit 11 (drop_bit 44 (packedAxes x s)) = 0x7ff)
   \<and> (- 1 \<le> ctrlThrottle s \<and> ctrlThrottle s \<le> f64_0_1
        \<and> - 1 \<le> ctrlRx s \<and> ctrlRx s \<le> 1 \<and> - 1 \<le> ctrlRy s \<and> ctrlRy s \<le> 1
        \<and> - 1 \<le> ctrlLy s \<and> ctrlLy s \<le> 1 \<and> - 1 \<le> ctrlLx s \<and> ctrlLx s \<le> 1 \<longrightarrow>
       take_bit 11 (drop_bit 44 (packedAxes x s)) = jsFloatToTello x (ctrlThrottle s))"
proof (intro conjI impI)
  assume "f64_0_1 < ctrlThrottle s"
  then obtain p where "packedAxes x s = p OR push_bit 44 0x7ff"
    using packedAxes_saturated by blast
  thus "take_bit 11 (drop_bit 44 (packedAxes x s)) = 0x7ff"
    by (simp only: field_44_saturated)
next
  assume a: "- 1 \<le> ctrlThrottle s \<and> ctrlThrottle s \<le> f64_0_1
        \<and> - 1 \<le> ctrlRx s \<and> ctrlRx s \<le> 1 \<and> - 1 \<le> ctrlRy s \<and> ctrlRy s \<le> 1
        \<and> - 1 \<le> ctrlLy s \<and> ctrlLy s \<le> 1 \<and> - 1 \<le> ctrlLx s \<and> ctrlLx s \<le> 1"
  hence "\<not> f64_0_1 < ctrlThrottle s" by simp
  moreover obtain e where e: "packedAxes x s =
     (((take_bit 11 (jsFloatToTello x (ctrlRx s)) OR push_bit 11 (take_bit 11 (jsFloatToTello x (ctrlRy s))))
     OR push_bit 22 (take_bit 11 (jsFloatToTello x (ctrlLy s)))) OR push_bit 33 (take_bit 11 (jsFloatToTello x (ctrlLx s))))
     OR push_bit 44 e" "e = (if f64_0_1 < ctrlThrottle s then 0x7ff else jsFloatToTello x (ctrlThrottle s))"
    using packedAxes_in_range [of s x] a by blast
  ultimately have "e = jsFloatToTello x (ctrlThrottle s)" by simp
  moreover have "ctrlThrottle s \<le> 1" using a by (simp add: f64_0_1_def)
  hence "take_bit 11 (jsFloatToTello x (ctrlThrottle s)) = jsFloatToTello x (ctrlThrottle s)"
    using a by (simp add: jsFloatToTello_11_bits)
  ultimately show "take_bit 11 (drop_bit 44 (packedAxes x s)) = jsFloatToTello x (ctrlThrottle s)"
    using e(1) by (simp only: field_44)
qed

text \<open>
  Throttle 1 saturates the field; the zero state has throttle 0, encoded as 1024.
\<close>

theorem throttle_field_witness:
  "f64_0_1 < ctrlThrottle (tello0\<lparr> ctrlThrottle := 1 \<rparr>)
   \<and> take_bit 11 (drop_bit 44 (packedAxes ext0 (tello0\<lparr> ctrlThrottle := 1 \<rparr>))) = 0x7ff
   \<and> - 1 \<le> ctrlThrottle tello0 \<and> ctrlThrottle tello0 \<le> f64_0_1
   \<and> - 1 \<le> ctrlRx tello0 \<and> ctrlRx tello0 \<le> 1 \<and> - 1 \<le> ctrlRy tello0 \<and> ctrlRy tello0 \<le> 1
   \<and> - 1 \<le> ctrlLy tello0 \<and> ctrlLy tello0 \<le> 1 \<and> - 1 \<le> ctrlLx tello0 \<and> ctrlLx tello0 \<le> 1
   \<and> take_bit 11 (drop_bit 44 (packedAxes ext0 tello0)) = 1024"
proof -
  have a: "f64_0_1 < ctrlThrottle (tello0\<lparr> ctrlThrottle := 1 \<rparr>)"
    by (simp add: f64_0_1_def)
  have b: "- 1 \<le> ctrlThrottle tello0 \<and> ctrlThrottle tello0 \<le> f64_0_1
        \<and> - 1 \<le> ctrlRx tello0 \<and> ctrlRx tello0 \<le> 1 \<and> - 1 \<le> ctrlRy tello0 \<and> ctrlRy tello0 \<le> 1
        \<and> - 1 \<le> ctrlLy tello0 \<and> ctrlLy tello0 \<le> 1 \<and> - 1 \<le> ctrlLx tello0 \<and> ctrlLx tello0 \<le> 1"
    by (simp add: tello0_def f64_0_1_def)
  have z: "jsFloatToTello ext0 (ctrlThrottle tello0) = 1024"
    by (simp add: tello0_def jsFloatToTello_0)
  from throttle_field [of "tello0\<lparr> ctrlThrottle := 1 \<rparr>" ext0] a
  have 1: "take_bit 11 (drop_bit 44 (packedAxes ext0 (tello0\<lparr> ctrlThrottle := 1 \<rparr>))) = 0x7ff"
    by blast
  from throttle_field [of tello0 ext0] b
  have 2: "take_bit 11 (drop_bit 44 (packedAxes ext0 tello0)) = jsFloatToTello ext0 (ctrlThrottle tello0)"
    by blast
  show ?thesis using a b 1 2 z by (simp only: simp_thms)
qed

text \<open>
  The range is needed here too: with the left stick at \<open>Lx = 2\<close> and the throttle at 0,
  the axis encodes to 2344 and its top bit is or-ed into bit 44, so that bits 44 to 54 of the
  packed word are 1025, not the 1024 that the formula gives for throttle 0.
\<close>

theorem throttle_field_counterexample:
  "ctrlThrottle (tello0\<lparr> ctrlLx := 2 \<rparr>) \<le> f64_0_1
   \<and> take_bit 11 (drop_bit 44 (packedAxes ext0 (tello0\<lparr> ctrlLx := 2 \<rparr>))) = 1025
   \<and> jsFloatToTello ext0 (ctrlThrottle (tello0\<lparr> ctrlLx := 2 \<rparr>)) = 1024"
  by (simp add: packedAxes_def tello0_def f64_0_1_def jsFloatToTello_0 jsFloatToTello_2)

text \<open>
  What the payload carries of the throttle field: byte 5 holds bits 40 to 47 of the packed
  word, so only the low four bits of the field are sent; byte 6 is the hour.
\<close>

lemma throttle_field_in_payload:
  "stickPayload x now s ! 5 = ucast (drop_bit 40 (packedAxes x s))
   \<and> stickPayload x now s ! 6 = word_of_int (Hour now)
   \<and> length (stickPayload x now s) = 11"
  by (simp add: stickPayload_def Let_def)

subsection \<open>The listener and the handshake\<close>

lemma sublist_ContainsAny:
  assumes "sublist connAck d"
  shows "ContainsAny (d @ r) ''conn_ack:''"
proof -
  obtain ps ss where "d = ps @ connAck @ ss" using assms by (auto simp: sublist_def)
  hence "of_char CHR ''c'' \<in> set d" by (simp add: connAck_def)
  thus ?thesis unfolding ContainsAny_def by (intro bexI [of _ "of_char CHR ''c''"]) simp_all
qed

lemma listenerKeeps_refl: "listenerKeeps s s"
  by (simp add: listenerKeeps_def)

lemma listenerKeeps_trans: "listenerKeeps s s' \<Longrightarrow> listenerKeeps s' s'' \<Longrightarrow> listenerKeeps s s''"
  by (auto simp: listenerKeeps_def)

lemma dispatch_link: "dispatch pkt s = Inr s' \<Longrightarrow> s'\<lparr> fd := fd s, logged := logged s \<rparr> = s"
  by (cases "messageID pkt") (auto simp: dispatch_def split: sum.splits)

lemma dispatch_keeps:
  assumes "dispatch pkt s = Inr s'"
  shows "listenerKeeps s s' \<and> ctrlConnecting s' = ctrlConnecting s \<and> ctrlConnected s' = ctrlConnected s"
proof -
  have e: "s = s'\<lparr> fd := fd s, logged := logged s \<rparr>" using dispatch_link [OF assms] by simp
  show ?thesis by (subst (1 2 3) e) (simp add: listenerKeeps_def)
qed

lemma listenerTurn_handshake:
  assumes "ctrlConnecting s" "length d = 11" "11 \<le> length (buff s)"
  shows "listenerTurn x (Datagram d) s =
     (if ContainsAny (d @ drop 11 (buff s)) ''conn_ack:'' then
        Inr (s\<lparr> buff := d @ drop 11 (buff s), logged := logged s @ [LogConnAck 11],
                ctrlConnecting := False, ctrlConnected := True \<rparr>)
      else Inr (s\<lparr> buff := d @ drop 11 (buff s),
                   logged := logged s @ [LogUnexpectedResponse (d @ drop 11 (buff s))] \<rparr>))"
  using assms by (simp add: listenerTurn_def connRead_def)

lemma listenerTurn_ordinary:
  assumes "\<not> (ctrlConnecting s \<and> fst (connRead r (buff s)) = 11)"
    and "listenerTurn x r s = Inr s'"
  shows "listenerKeeps s s' \<and> ctrlConnecting s' = ctrlConnecting s \<and> ctrlConnected s' = ctrlConnected s"
proof -
  obtain n err b where c: "connRead r (buff s) = (n, err, b)" by (cases "connRead r (buff s)")
  have l: "length b = length (buff s)"
    using c by (auto simp: connRead_def split: rd.splits)
  have k: "listenerKeeps s (s\<lparr> buff := b \<rparr>)" using l by (simp add: listenerKeeps_def)
  have n: "\<not> (ctrlConnecting s \<and> n = 11)" using assms(1) c by simp
  show ?thesis
  proof (cases "\<exists>v q. ctrlStopChan s = Some (v # q)")
    case True
    then obtain v q where "ctrlStopChan s = Some (v # q)" by blast
    thus ?thesis using assms(2) c n l by (auto simp: listenerTurn_def Let_def listenerKeeps_def)
  next
    case False
    hence f: "(case ctrlStopChan s of Some (v # q) \<Rightarrow> A v q | _ \<Rightarrow> B) = B" for A and B :: "panic + proc"
      by (auto split: option.splits list.splits)
    show ?thesis
    proof (cases "err \<or> b = [] \<or> hd b \<noteq> msgHdr x")
      case True
      thus ?thesis using assms(2) c n l
        by (cases b) (auto simp: listenerTurn_def Let_def f listenerKeeps_def split: if_splits)
    next
      case False
      then obtain b0 bs where b: "b = b0 # bs" "b0 = msgHdr x" "\<not> err" by (cases b) auto
      hence "dispatch (bufferToPacket x b) (s\<lparr> buff := b \<rparr>) = Inr s'"
        using assms(2) c n by (auto simp: listenerTurn_def Let_def f)
      from dispatch_keeps [OF this] k show ?thesis
        by (auto intro: listenerKeeps_trans)
    qed
  qed
qed

lemma handshaking0_fields:
  "ctrlConnecting handshaking0" "\<not> ctrlConnected handshaking0" "length (buff handshaking0) = 4096"
  "buff handshaking0 = replicate 4096 0"
  by (simp_all add: handshaking0_def tello0_def)





text \<open>
  The case that the statement above leaves open. \<^verbatim>\<open>bytes.ContainsAny(buff, "conn_ack:")\<close>
  asks for any one character of the marker anywhere in the buffer, not for the marker
  text, while the log line says "conn_ack received": an echo of the connect request itself
  is taken for the acknowledgment.
\<close>

lemma listenerTurn_accepts_marker_characters:
  "\<not> sublist connAck (map of_char ''conn_req:lh'')
   \<and> listenerTurn x (Datagram (map of_char ''conn_req:lh'')) handshaking0 =
       Inr (handshaking0\<lparr> buff := map of_char ''conn_req:lh'' @ drop 11 (buff handshaking0),
              logged := logged handshaking0 @ [LogConnAck 11],
              ctrlConnecting := False, ctrlConnected := True \<rparr>)"
proof
  show "\<not> sublist connAck (map of_char ''conn_req:lh'')"
  proof
    assume "sublist connAck (map of_char ''conn_req:lh'')"
    hence "set connAck \<subseteq> set (map of_char ''conn_req:lh'' :: byte list)" by (rule set_mono_sublist)
    thus False by (simp add: connAck_def)
  qed
  have "ContainsAny (map of_char ''conn_req:lh'' @ drop 11 (buff handshaking0)) ''conn_ack:''"
    by (simp add: ContainsAny_def)
  thus "listenerTurn x (Datagram (map of_char ''conn_req:lh'')) handshaking0 =
       Inr (handshaking0\<lparr> buff := map of_char ''conn_req:lh'' @ drop 11 (buff handshaking0),
              logged := logged handshaking0 @ [LogConnAck 11],
              ctrlConnecting := False, ctrlConnected := True \<rparr>)"
    using handshaking0_fields by (simp add: listenerTurn_handshake)
qed

subsection \<open>The timeout of the handshake\<close>

lemma listenerTurn_keeps:
  assumes "listenerTurn x r s = Inr s'"
  shows "listenerKeeps s s'"
proof (cases "ctrlConnecting s \<and> fst (connRead r (buff s)) = 11")
  case False
  from listenerTurn_ordinary [OF False assms] show ?thesis by simp
next
  case True
  obtain n err b where c: "connRead r (buff s) = (n, err, b)" by (cases "connRead r (buff s)")
  have l: "length b = length (buff s)"
    using c by (auto simp: connRead_def split: rd.splits)
  show ?thesis using assms True c l
    by (auto simp: listenerTurn_def Let_def listenerKeeps_def split: if_splits)
qed

lemma listenerRun_keeps:
  "listenerRun x rs s = Inr s' \<Longrightarrow> listenerKeeps s s'"
proof (induction rs arbitrary: s)
  case Nil
  thus ?case by (simp add: listenerKeeps_refl)
next
  case (Cons r rs)
  show ?case
  proof (cases "controlResponseListener \<in> set (goroutines s)")
    case False
    thus ?thesis using Cons.prems by (simp add: listenerKeeps_refl)
  next
    case True
    then obtain s1 where 1: "listenerTurn x r s = Inr s1" and 2: "listenerRun x rs s1 = Inr s'"
      using Cons.prems by (auto split: sum.splits)
    from listenerTurn_keeps [OF 1] Cons.IH [OF 2] show ?thesis by (rule listenerKeeps_trans)
  qed
qed

lemma waitForResponse_keeps:
  "waitForResponse x sc t s = Inr s' \<Longrightarrow> listenerKeeps s s'"
proof (induction x sc t s rule: waitForResponse.induct)
  case (1 x sc t s)
  note u = waitForResponse.simps [of x sc t s]
  show ?case
  proof (cases "t < 10 \<and> \<not> ctrlConnected s")
    case False
    hence "waitForResponse x sc t s = Inr s" unfolding u by auto
    hence "s' = s" using "1.prems" by simp
    thus ?thesis by (simp add: listenerKeeps_refl)
  next
    case True
    hence v: "waitForResponse x sc t s =
       (case listenerRun x (duringSleep sc t) s of
          Inl p \<Rightarrow> Inl p | Inr s1 \<Rightarrow> waitForResponse x sc (t + 1) s1)"
      unfolding u by simp
    obtain s1 where a: "listenerRun x (duringSleep sc t) s = Inr s1"
      using "1.prems" unfolding v by (cases "listenerRun x (duringSleep sc t) s") simp_all
    have b: "waitForResponse x sc (t + 1) s1 = Inr s'"
      using "1.prems" unfolding v a by simp
    have "listenerKeeps s1 s'" using "1.IH" [of s1] True a b by simp
    with listenerRun_keeps [OF a] show ?thesis by (rule listenerKeeps_trans)
  qed
qed

lemma sendConnectRequest_fields:
  "ctrlConnecting (sendConnectRequest p s)"
  "ctrlConn (sendConnectRequest p s) = ctrlConn s"
  "ctrlStopChan (sendConnectRequest p s) = ctrlStopChan s"
  "goroutines (sendConnectRequest p s) = goroutines s"
  "stickChan (sendConnectRequest p s) = stickChan s"
  "ctrlConnected (sendConnectRequest p s) = ctrlConnected s"
  by (simp_all add: sendConnectRequest_def Let_def)

lemma handshake_timeout:
  assumes "handshake x sc s = Inr ((ch, err), s')" and "\<not> ctrlConnected s'"
  shows "ch = None
     \<and> err = Some (errorsNew ''Timeout waiting for response to connection request from Tello'')
     \<and> ctrlConnecting s' \<and> ctrlConn s' = ctrlConn s \<and> ctrlStopChan s' = Some []
     \<and> goroutines s' = goroutines s @ [controlResponseListener]
     \<and> stickChan s' = stickChan s"
proof -
  let ?s2 = "s\<lparr> ctrlStopChan := Some [],
                 goroutines := goroutines s @ [controlResponseListener],
                 buff := replicate 4096 0 \<rparr>"
  have u: "handshake x sc s =
     (case listenerRun x (beforeRequest sc) ?s2 of
        Inl p \<Rightarrow> Inl p
      | Inr s3 \<Rightarrow>
          (case listenerRun x (afterRequest sc) (sendConnectRequest defaultTelloVideoPort s3) of
             Inl p \<Rightarrow> Inl p
           | Inr s4 \<Rightarrow>
               (case waitForResponse x sc 0 s4 of
                  Inl p \<Rightarrow> Inl p | Inr s5 \<Rightarrow> Inr (finishConnect s5))))"
    unfolding handshake_def Let_def by simp
  obtain s3 where 3: "listenerRun x (beforeRequest sc) ?s2 = Inr s3"
    using assms(1) by (cases "listenerRun x (beforeRequest sc) ?s2") (simp_all add: u)
  obtain s4 where 4: "listenerRun x (afterRequest sc) (sendConnectRequest defaultTelloVideoPort s3) = Inr s4"
    using assms(1)
    by (cases "listenerRun x (afterRequest sc) (sendConnectRequest defaultTelloVideoPort s3)")
       (simp_all add: u 3)
  obtain s5 where 5: "waitForResponse x sc 0 s4 = Inr s5"
    using assms(1) by (cases "waitForResponse x sc 0 s4") (simp_all add: u 3 4)
  have r: "finishConnect s5 = ((ch, err), s')"
    using assms(1) by (simp add: u 3 4 5)
  have n: "\<not> ctrlConnected s5"
    using r assms(2) by (auto simp: finishConnect_def Let_def split: if_splits)
  hence e: "ch = None"
    "err = Some (errorsNew ''Timeout waiting for response to connection request from Tello'')"
    "s' = s5"
    using r by (simp_all add: finishConnect_def)
  note k3 = listenerRun_keeps [OF 3]
  note k4 = listenerRun_keeps [OF 4]
  note k5 = waitForResponse_keeps [OF 5]
  have k45: "listenerKeeps (sendConnectRequest defaultTelloVideoPort s3) s5"
    using k4 k5 by (rule listenerKeeps_trans)
  have a: "ctrlStopChan s3 = Some []" "goroutines s3 = goroutines s @ [controlResponseListener]"
      "ctrlConn s3 = ctrlConn s" "stickChan s3 = stickChan s"
    using k3 by (simp_all add: listenerKeeps_def)
  have "ctrlConnecting s5 \<or> ctrlConnected s5"
    using k45 by (simp add: listenerKeeps_def sendConnectRequest_fields)
  hence "ctrlConnecting s5" using n by simp
  moreover have "ctrlStopChan s5 = Some [] \<and> goroutines s5 = goroutines s @ [controlResponseListener]
      \<and> ctrlConn s5 = ctrlConn s \<and> stickChan s5 = stickChan s"
    using k45 a by (simp add: listenerKeeps_def sendConnectRequest_fields)
  ultimately show ?thesis using e by simp
qed

lemma Itoa_examples: "Itoa 8889 = ''8889''" "Itoa 8800 = ''8800''"
  by (simp_all add: Itoa_def digits.simps)

lemma waitForResponse_idle:
  "\<forall>t. duringSleep sc t = [] \<Longrightarrow> waitForResponse x sc t s = Inr s"
proof (induction x sc t s rule: waitForResponse.induct)
  case (1 x sc t s)
  show ?case
  proof (cases "t < 10 \<and> \<not> ctrlConnected s")
    case False
    thus ?thesis by (subst waitForResponse.simps) auto
  next
    case True
    have "listenerRun x (duringSleep sc t) s = Inr s" using "1.prems" by simp
    moreover have "waitForResponse x sc (t + 1) s = Inr s"
      using "1.IH" [of s] True "1.prems" calculation by simp
    ultimately show ?thesis using True by (subst waitForResponse.simps) simp
  qed
qed

lemma waitForResponse_connected:
  "ctrlConnected s \<Longrightarrow> waitForResponse x sc t s = Inr s"
  by (subst waitForResponse.simps) simp

lemma connect_request: 
  "sendConnectRequest defaultTelloVideoPort s =
     s\<lparr> ctrlConnecting := True, sent := sent s @ [Raw (map of_char ''conn_req:'' @ [0x96, 0x17])] \<rparr>"
  by (simp add: sendConnectRequest_def defaultTelloVideoPort_def)

lemma ControlConnect_no_answer:
  "ControlConnect ext0 net0 sched0 ''192.168.10.1'' 8889 8800 tello0 =
     Inr ((None, Some (errorsNew ''Timeout waiting for response to connection request from Tello'')),
          timedOut0)"
proof -
  have w: "waitForResponse ext0 sched0 0 s = Inr s" for s
    by (rule waitForResponse_idle) (simp add: sched0_def)
  have sb: "beforeRequest sched0 = []" "afterRequest sched0 = []" by (simp_all add: sched0_def)
  show ?thesis
    by (simp add: ControlConnect_def handshake_def finishConnect_def Let_def net0_def sb
          Itoa_examples connect_request w tello0_def timedOut0_def handshaking0_def)
qed

text \<open>
  Claim C2, amended. When the connect request has been sent (the guard passed, both
  addresses resolved, the socket opened) and no acknowledgment is recognised within the ten
  polls, \<^verbatim>\<open>ControlConnect\<close> returns the timeout error and a nil stick channel, and leaves
  the link as the handshake made it: \<open>ctrlConnecting\<close> still set, the socket open, the
  stop channel allocated, the listener running, no keepalive and no stick channel.
\<close>

theorem ControlConnect_timeout:
  assumes "\<not> ctrlConnected s" and "\<not> ctrlConnecting s"
    and "ResolveUDPAddr nt (udpAddr @ '':'' @ Itoa droneUDPPort) = Inr droneAddr"
    and "ResolveUDPAddr nt ('':'' @ Itoa localUDPPort) = Inr localAddr"
    and "DialUDP nt localAddr droneAddr = Inr conn"
    and "ControlConnect x nt sc udpAddr droneUDPPort localUDPPort s = Inr ((ch, err), s')"
    and "\<not> ctrlConnected s'"
  shows "ch = None
     \<and> err = Some (errorsNew ''Timeout waiting for response to connection request from Tello'')
     \<and> ctrlConnecting s' \<and> ctrlConn s' = Some conn \<and> ctrlStopChan s' = Some []
     \<and> goroutines s' = goroutines s @ [controlResponseListener]
     \<and> stickChan s' = stickChan s"
proof -
  let ?s3 = "s\<lparr> netcalls := (netcalls s @ [CallResolveUDPAddr (udpAddr @ '':'' @ Itoa droneUDPPort)])
                     @ [CallResolveUDPAddr ('':'' @ Itoa localUDPPort)]
                     @ [CallDialUDP localAddr droneAddr],
                 ctrlConn := Some conn \<rparr>"
  have "ControlConnect x nt sc udpAddr droneUDPPort localUDPPort s = handshake x sc ?s3"
    using assms(1-5) by (simp add: ControlConnect_def Let_def)
  hence h: "handshake x sc ?s3 = Inr ((ch, err), s')" using assms(6) by simp
  from handshake_timeout [OF h assms(7)] show ?thesis by simp
qed

text \<open>
  A fresh \<^verbatim>\<open>Tello\<close> connects to the default addresses and receives nothing.
\<close>

theorem ControlConnect_timeout_witness:
  "\<not> ctrlConnected tello0 \<and> \<not> ctrlConnecting tello0
   \<and> ResolveUDPAddr net0 (''192.168.10.1'' @ '':'' @ Itoa 8889) = Inr ''192.168.10.1:8889''
   \<and> ResolveUDPAddr net0 ('':'' @ Itoa 8800) = Inr '':8800''
   \<and> DialUDP net0 '':8800'' ''192.168.10.1:8889'' = Inr \<lparr> laddr = '':8800'', raddr = ''192.168.10.1:8889'' \<rparr>
   \<and> ControlConnect ext0 net0 sched0 ''192.168.10.1'' 8889 8800 tello0 =
       Inr ((None, Some (errorsNew ''Timeout waiting for response to connection request from Tello'')),
            timedOut0)
   \<and> \<not> ctrlConnected timedOut0
   \<and> ctrlConnecting timedOut0
   \<and> ctrlConn timedOut0 = Some \<lparr> laddr = '':8800'', raddr = ''192.168.10.1:8889'' \<rparr>
   \<and> ctrlStopChan timedOut0 = Some []
   \<and> goroutines timedOut0 = goroutines tello0 @ [controlResponseListener]
   \<and> stickChan timedOut0 = stickChan tello0"
proof -
  have a: "\<not> ctrlConnected tello0" "\<not> ctrlConnecting tello0" by (simp_all add: tello0_def)
  have b: "ResolveUDPAddr net0 (''192.168.10.1'' @ '':'' @ Itoa 8889) = Inr ''192.168.10.1:8889''"
    "ResolveUDPAddr net0 ('':'' @ Itoa 8800) = Inr '':8800''"
    "DialUDP net0 '':8800'' ''192.168.10.1:8889'' = Inr \<lparr> laddr = '':8800'', raddr = ''192.168.10.1:8889'' \<rparr>"
    by (simp_all add: net0_def Itoa_examples)
  have c: "\<not> ctrlConnected timedOut0" by (simp add: timedOut0_def handshaking0_def tello0_def)
  from ControlConnect_timeout [OF a b ControlConnect_no_answer c]
  show ?thesis using a b c ControlConnect_no_answer by blast
qed

text \<open>
  Nothing is cleaned up on the timeout: after an attempt that nobody answered, the error
  and the nil channel are returned, and the link is still in the handshaking phase
  (\<open>ctrlConnecting\<close> set), the socket still open and the listener still running.
\<close>

theorem ControlConnect_timeout_counterexample:
  "ControlConnect ext0 net0 sched0 ''192.168.10.1'' 8889 8800 tello0 =
     Inr ((None, Some (errorsNew ''Timeout waiting for response to connection request from Tello'')),
          timedOut0)
   \<and> ctrlConnecting timedOut0 \<and> \<not> ctrlConnected timedOut0
   \<and> ctrlConn timedOut0 = Some \<lparr> laddr = '':8800'', raddr = ''192.168.10.1:8889'' \<rparr>
   \<and> controlResponseListener \<in> set (goroutines timedOut0)"
  using ControlConnect_no_answer by (simp add: timedOut0_def handshaking0_def tello0_def)

text \<open>
  The other way out of the polling loop: when the acknowledgment arrives after the
  request, \<^verbatim>\<open>ControlConnect\<close> returns the stick channel and no error, the link is
  connected, and the keepalive and the stick listener run beside the response listener.
\<close>

lemma ControlConnect_acknowledged:
  "\<exists>s'. ControlConnect ext0 net0 (sched0\<lparr> afterRequest := [Datagram (connAck @ [0x96, 0x17])] \<rparr>)
          ''192.168.10.1'' 8889 8800 tello0 = Inr ((Some [], None), s')
     \<and> ctrlConnected s' \<and> \<not> ctrlConnecting s'
     \<and> goroutines s' = [controlResponseListener, keepAlive, stickListener]"
proof -
  let ?sc = "sched0\<lparr> afterRequest := [Datagram (connAck @ [0x96, 0x17])] \<rparr>"
  let ?d = "connAck @ [0x96, 0x17]"
  let ?s1 = "timedOut0\<lparr> buff := ?d @ drop 11 (buff timedOut0),
                logged := logged timedOut0 @ [LogConnAck 11],
                ctrlConnecting := False, ctrlConnected := True \<rparr>"
  have sb: "beforeRequest ?sc = []" "afterRequest ?sc = [Datagram ?d]"
    by (simp_all add: sched0_def)
  have t: "ctrlConnecting timedOut0" "length (buff timedOut0) = 4096"
    "goroutines timedOut0 = [controlResponseListener]"
    by (simp_all add: timedOut0_def handshaking0_def tello0_def)
  have a: "length ?d = 11 \<and> sublist connAck ?d" by (simp add: connAck_def)
  have c: "ContainsAny (?d @ drop 11 (buff timedOut0)) ''conn_ack:''"
    using a by (intro sublist_ContainsAny) simp
  have 1: "listenerTurn ext0 (Datagram ?d) timedOut0 = Inr ?s1"
    using listenerTurn_handshake [of timedOut0 ?d ext0] t a c by simp
  have 2: "listenerRun ext0 [Datagram ?d] timedOut0 = Inr ?s1"
    by (simp add: t(3) 1)
  have 3: "waitForResponse ext0 ?sc 0 ?s1 = Inr ?s1"
    by (rule waitForResponse_connected) simp
  have 4: "ControlConnect ext0 net0 ?sc ''192.168.10.1'' 8889 8800 tello0 =
     (case listenerRun ext0 (afterRequest ?sc) timedOut0 of
        Inl p \<Rightarrow> Inl p
      | Inr s4 \<Rightarrow> (case waitForResponse ext0 ?sc 0 s4 of
                     Inl p \<Rightarrow> Inl p | Inr s5 \<Rightarrow> Inr (finishConnect s5)))"
    by (simp add: ControlConnect_def handshake_def Let_def net0_def sb(1)
          Itoa_examples connect_request tello0_def timedOut0_def handshaking0_def)
  have "ControlConnect ext0 net0 ?sc ''192.168.10.1'' 8889 8800 tello0 = Inr (finishConnect ?s1)"
    unfolding 4 sb(2) 2 by (simp add: waitForResponse_connected)
  thus ?thesis by (simp add: finishConnect_def Let_def t(3))
qed

end
